theory Spec2Isabelle
  imports Complex_Main
begin

section \<open>Numbers and errors\<close>

text \<open>
  The pipeline computes on NumPy double arrays. A finite double is given by its exact real
  value, and the IEEE special values are kept, so that a NaN or an infinity which the code
  lets through is visible in the model. In artifact rejection, where a rounded value
  decides which epochs are kept, the rounding of every operation is explicit (a parameter
  of the model, see there). Elsewhere the operations on finite values are the exact ones,
  with NumPy's results for a zero divisor.
\<close>

datatype npfloat = Fin real | PInf | NInf | NaN

datatype error =
    ValueError | ZeroDivisionError | OverflowError | UnboundLocalError | KeyError | IndexError

text \<open>True division of two finite values, NumPy style: a zero divisor gives NaN or an infinity.\<close>

definition np_div_real :: "real \<Rightarrow> real \<Rightarrow> npfloat" where
  "np_div_real a b =
     (if b \<noteq> 0 then Fin (a / b) else if a = 0 then NaN else if 0 < a then PInf else NInf)"

fun np_sub :: "npfloat \<Rightarrow> npfloat \<Rightarrow> npfloat" where
  "np_sub NaN _ = NaN"
| "np_sub _ NaN = NaN"
| "np_sub (Fin a) (Fin b) = Fin (a - b)"
| "np_sub PInf PInf = NaN"
| "np_sub NInf NInf = NaN"
| "np_sub PInf _ = PInf"
| "np_sub NInf _ = NInf"
| "np_sub (Fin a) PInf = NInf"
| "np_sub (Fin a) NInf = PInf"

fun np_div :: "npfloat \<Rightarrow> npfloat \<Rightarrow> npfloat" where
  "np_div NaN _ = NaN"
| "np_div _ NaN = NaN"
| "np_div (Fin a) (Fin b) = np_div_real a b"
| "np_div (Fin a) _ = Fin 0"
| "np_div PInf (Fin b) = (if 0 \<le> b then PInf else NInf)"
| "np_div NInf (Fin b) = (if 0 \<le> b then NInf else PInf)"
| "np_div _ _ = NaN"

text \<open>Comparison \<open>a < b\<close>: every comparison with NaN is false.\<close>

fun np_less :: "npfloat \<Rightarrow> npfloat \<Rightarrow> bool" where
  "np_less NaN _ = False"
| "np_less _ NaN = False"
| "np_less (Fin a) (Fin b) = (a < b)"
| "np_less NInf NInf = False"
| "np_less NInf _ = True"
| "np_less PInf _ = False"
| "np_less (Fin a) PInf = True"
| "np_less (Fin a) NInf = False"

text \<open>Comparison \<open>a <= b\<close>.\<close>

fun np_le :: "npfloat \<Rightarrow> npfloat \<Rightarrow> bool" where
  "np_le NaN _ = False"
| "np_le _ NaN = False"
| "np_le (Fin a) (Fin b) = (a \<le> b)"
| "np_le NInf _ = True"
| "np_le PInf PInf = True"
| "np_le PInf _ = False"
| "np_le (Fin a) PInf = True"
| "np_le (Fin a) NInf = False"

fun np_sqrt :: "npfloat \<Rightarrow> npfloat" where
  "np_sqrt (Fin a) = (if 0 \<le> a then Fin (sqrt a) else NaN)"
| "np_sqrt PInf = PInf"
| "np_sqrt NInf = NaN"
| "np_sqrt NaN = NaN"

text \<open>\<open>np.mean\<close> of a one-dimensional array of finite values: the sum over the count,
  NaN for the empty array.\<close>

definition np_mean :: "real list \<Rightarrow> npfloat" where
  "np_mean xs = np_div_real (sum_list xs) (real (length xs))"

text \<open>\<open>np.std(xs, ddof=1)\<close>: the squared deviations from the mean are summed and divided
  by \<open>max(n - ddof, 0)\<close>; with at most one element that divisor is zero and the quotient
  \<open>0/0\<close> is NaN.\<close>

definition np_std_ddof1 :: "real list \<Rightarrow> npfloat" where
  "np_std_ddof1 xs =
     (case np_mean xs of
        Fin m \<Rightarrow>
          np_sqrt (np_div_real (sum_list (map (\<lambda>x. (x - m) ^ 2) xs))
                               (real_of_int (max (int (length xs) - 1) 0)))
      | _ \<Rightarrow> NaN)"

definition zeros_like :: "'a list \<Rightarrow> npfloat list" where
  "zeros_like xs = map (\<lambda>_. Fin 0) xs"

definition is_finite :: "npfloat \<Rightarrow> bool" where
  "is_finite v = (case v of Fin _ \<Rightarrow> True | _ \<Rightarrow> False)"

section \<open>Z-scores (normative\_db.py)\<close>

text \<open>The table \<open>NORMATIVE_RELATIVE_POWER\<close>: band name to (mean, std).\<close>

definition NORMATIVE_RELATIVE_POWER :: "string \<rightharpoonup> real \<times> real" where
  "NORMATIVE_RELATIVE_POWER =
     [''Delta'' \<mapsto> (0.28, 0.09), ''Theta'' \<mapsto> (0.18, 0.07),
      ''Alpha'' \<mapsto> (0.32, 0.11), ''Beta'' \<mapsto> (0.14, 0.06)]"

definition compute_zscore_within_subject :: "real list \<Rightarrow> npfloat list" where
  "compute_zscore_within_subject channel_values =
     (let mean = np_mean channel_values;
          std = np_std_ddof1 channel_values
      in if np_less std (Fin (1 / 10 ^ 10)) then zeros_like channel_values
         else map (\<lambda>v. np_div (np_sub (Fin v) mean) std) channel_values)"

definition compute_zscore_normative :: "real list \<Rightarrow> string \<Rightarrow> npfloat list" where
  "compute_zscore_normative channel_values band_name =
     (case NORMATIVE_RELATIVE_POWER band_name of
        None \<Rightarrow> zeros_like channel_values
      | Some (norm_mean, norm_std) \<Rightarrow>
          map (\<lambda>v. np_div (np_sub (Fin v) (Fin norm_mean)) (Fin norm_std)) channel_values)"

text \<open>\<open>NormativeDB.compute_zscores\<close>; the first argument is the field \<open>_method\<close>.\<close>

definition compute_zscores :: "string \<Rightarrow> real list \<Rightarrow> string option \<Rightarrow> error + npfloat list" where
  "compute_zscores method channel_values band_name =
     (if method = ''within'' then Inr (compute_zscore_within_subject channel_values)
      else case band_name of
             None \<Rightarrow> Inl ValueError
           | Some b \<Rightarrow> Inr (compute_zscore_normative channel_values b))"

section \<open>Artifact rejection (signal\_processor.py, qeeg\_analyzer.py)\<close>

text \<open>
  A two-dimensional array of shape (channels, samples): the rows are the channels, and
  \<open>shape1\<close> is the sample count (kept on its own, since an array may have no row). The
  samples are finite doubles, given by their exact values.
\<close>

record matrix =
  shape1 :: nat
  rows :: "real list list"

text \<open>
  Double arithmetic in artifact rejection. An arithmetic operation on doubles returns its
  exact result rounded to a double, or an infinity when the result overflows. Which epochs
  are kept and how many samples an epoch has are decided by such rounded values, so here the
  rounding is explicit: the function from the exact result to the value returned is the
  parameter \<open>rnd\<close> of the model, and what is proved holds for every such function.
\<close>

type_synonym rounding = "real \<Rightarrow> npfloat"

text \<open>The product of a double with a positive finite constant.\<close>

definition fl_scale :: "rounding \<Rightarrow> npfloat \<Rightarrow> real \<Rightarrow> npfloat" where
  "fl_scale rnd a c = (case a of Fin x \<Rightarrow> rnd (x * c) | PInf \<Rightarrow> PInf | NInf \<Rightarrow> NInf | NaN \<Rightarrow> NaN)"

definition EPOCH_DURATION_SEC :: real where
  "EPOCH_DURATION_SEC = 2.0"

definition ARTIFACT_THRESHOLD_UV :: real where
  "ARTIFACT_THRESHOLD_UV = 100.0"

definition MIN_CLEAN_EPOCHS :: nat where
  "MIN_CLEAN_EPOCHS = 30"

record signal_processor =
  sfreq :: real
  n_clean_epochs :: int
  n_total_epochs :: int
  rejection_threshold :: npfloat

text \<open>\<open>SignalProcessor.__init__\<close>, the fields that artifact rejection reads and writes.\<close>

definition SignalProcessor_init :: "real \<Rightarrow> signal_processor" where
  "SignalProcessor_init fs =
     \<lparr>sfreq = fs, n_clean_epochs = 0, n_total_epochs = 0,
      rejection_threshold = Fin ARTIFACT_THRESHOLD_UV\<rparr>"

text \<open>Python's \<open>x or d\<close> on an optional number: \<open>None\<close> and zero are falsy.\<close>

definition py_or :: "real option \<Rightarrow> real \<Rightarrow> real" where
  "py_or x d = (case x of None \<Rightarrow> d | Some v \<Rightarrow> if v = 0 then d else v)"

text \<open>Python's \<open>int(x)\<close> on a finite float truncates towards zero.\<close>

definition py_int :: "real \<Rightarrow> int" where
  "py_int x = (if 0 \<le> x then \<lfloor>x\<rfloor> else \<lceil>x\<rceil>)"

text \<open>The slice \<open>data[:, start:end]\<close> for \<open>0 \<le> start \<le> end\<close>.\<close>

definition slice_cols :: "matrix \<Rightarrow> nat \<Rightarrow> nat \<Rightarrow> matrix" where
  "slice_cols data start end' =
     \<lparr>shape1 = min end' (shape1 data) - min start (shape1 data),
      rows = map (\<lambda>r. take (end' - start) (drop start r)) (rows data)\<rparr>"

text \<open>\<open>(np.max(epoch, axis=1) - np.min(epoch, axis=1)) * 1e6\<close>: one value per channel, the
  rounded product of the rounded difference. The maximum and the minimum are exact.
  Inside the loops every epoch has \<open>epoch_samples \<ge> 1\<close> columns, so the reductions are
  over non-empty rows.\<close>

definition ptp_uv :: "rounding \<Rightarrow> matrix \<Rightarrow> npfloat list" where
  "ptp_uv rnd epoch =
     map (\<lambda>r. fl_scale rnd (rnd (Max (set r) - Min (set r))) 1000000) (rows epoch)"

text \<open>One pass of the epoch loop at threshold \<open>thr\<close>: the list \<open>clean_epochs\<close> it builds.
  The test is \<open>np.all(ptp_uv <= thr)\<close>.\<close>

definition scan_epochs :: "rounding \<Rightarrow> matrix \<Rightarrow> int \<Rightarrow> int \<Rightarrow> real \<Rightarrow> matrix list" where
  "scan_epochs rnd data epoch_samples n_epochs thr =
     fold (\<lambda>e clean_epochs.
             let start = e * nat epoch_samples;
                 end' = start + nat epoch_samples;
                 epoch = slice_cols data start end'
             in if list_all (\<lambda>p. np_le p (Fin thr)) (ptp_uv rnd epoch)
                then clean_epochs @ [epoch]
                else clean_epochs)
          [0..<nat n_epochs] []"

text \<open>The loop over the relaxed thresholds, with its \<open>break\<close>; the state is
  \<open>(clean_epochs, self.rejection_threshold)\<close>.\<close>

fun relax_loop ::
  "rounding \<Rightarrow> matrix \<Rightarrow> int \<Rightarrow> int \<Rightarrow> real list \<Rightarrow> matrix list \<times> npfloat
     \<Rightarrow> matrix list \<times> npfloat" where
  "relax_loop rnd data epoch_samples n_epochs [] st = st"
| "relax_loop rnd data epoch_samples n_epochs (relaxed_thresh # rest) st =
     (let clean_epochs = scan_epochs rnd data epoch_samples n_epochs relaxed_thresh
      in if MIN_CLEAN_EPOCHS \<le> length clean_epochs then (clean_epochs, Fin relaxed_thresh)
         else relax_loop rnd data epoch_samples n_epochs rest (clean_epochs, Fin relaxed_thresh))"

text \<open>\<open>np.concatenate(clean_epochs, axis=1)\<close> on a non-empty list of arrays with the same
  number of rows.\<close>

definition concatenate_axis1 :: "matrix list \<Rightarrow> matrix" where
  "concatenate_axis1 ms =
     \<lparr>shape1 = sum_list (map shape1 ms),
      rows = map (\<lambda>i. concat (map (\<lambda>m. rows m ! i) ms)) [0..<length (rows (hd ms))]\<rparr>"

text \<open>\<open>SignalProcessor.reject_artifacts\<close>. The epoch length is
  \<open>int(epoch_dur * self.sfreq)\<close>: the truncation of the rounded product, which raises for
  an infinity or a NaN.\<close>

definition reject_artifacts ::
  "rounding \<Rightarrow> signal_processor \<Rightarrow> matrix \<Rightarrow> real option \<Rightarrow> real option
     \<Rightarrow> error + matrix \<times> signal_processor" where
  "reject_artifacts rnd self data threshold_uv epoch_sec =
     (let threshold = py_or threshold_uv ARTIFACT_THRESHOLD_UV;
          epoch_dur = py_or epoch_sec EPOCH_DURATION_SEC
      in case rnd (epoch_dur * sfreq self) of
           NaN \<Rightarrow> Inl ValueError
         | PInf \<Rightarrow> Inl OverflowError
         | NInf \<Rightarrow> Inl OverflowError
         | Fin len \<Rightarrow>
            (let epoch_samples = py_int len
             in if epoch_samples = 0 then Inl ZeroDivisionError
                else
                  let n_epochs = int (shape1 data) div epoch_samples
                  in if n_epochs = 0
                     then Inr (data, self\<lparr>n_clean_epochs := 0, n_total_epochs := 0\<rparr>)
                     else
                       let clean_epochs = scan_epochs rnd data epoch_samples n_epochs threshold;
                           self1 = self\<lparr>n_total_epochs := n_epochs,
                                         rejection_threshold := Fin threshold\<rparr>;
                           (clean_epochs, thr) =
                             (if length clean_epochs < MIN_CLEAN_EPOCHS
                              then relax_loop rnd data epoch_samples n_epochs
                                     [150, 200, 300, 500]
                                     (clean_epochs, rejection_threshold self1)
                              else (clean_epochs, rejection_threshold self1));
                           self2 = self1\<lparr>rejection_threshold := thr\<rparr>
                       in if length clean_epochs < MIN_CLEAN_EPOCHS
                          then Inr (data, self2\<lparr>n_clean_epochs := n_epochs,
                                                 rejection_threshold := PInf\<rparr>)
                          else Inr (concatenate_axis1 clean_epochs,
                                    self2\<lparr>n_clean_epochs := int (length clean_epochs)\<rparr>)))"

record rejection_stats =
  total_epochs :: int
  clean_epochs :: int
  rejected_epochs :: int
  threshold_uv :: npfloat
  pct_rejected :: npfloat

text \<open>\<open>QEEGAnalyzer._reject_artifacts\<close> on the filtered data: the clean data, the
  processor and the dictionary \<open>artifact_stats\<close>.\<close>

definition QEEGAnalyzer_reject_artifacts ::
  "rounding \<Rightarrow> signal_processor \<Rightarrow> matrix
     \<Rightarrow> error + matrix \<times> signal_processor \<times> rejection_stats" where
  "QEEGAnalyzer_reject_artifacts rnd processor data =
     (case reject_artifacts rnd processor data None None of
        Inl e \<Rightarrow> Inl e
      | Inr (clean_data, p) \<Rightarrow>
          Inr (clean_data, p,
               \<lparr>total_epochs = n_total_epochs p,
                clean_epochs = n_clean_epochs p,
                rejected_epochs = n_total_epochs p - n_clean_epochs p,
                threshold_uv = rejection_threshold p,
                pct_rejected =
                  fl_scale rnd
                    (rnd (real_of_int (n_total_epochs p - n_clean_epochs p)
                            / real_of_int (max (n_total_epochs p) 1)))
                    100\<rparr>))"

section \<open>Band power and relative power (signal\_processor.py, constants.py)\<close>

text \<open>\<open>FREQ_BANDS\<close>, in the dictionary's insertion order, and \<open>TOTAL_POWER_RANGE\<close>.\<close>

definition FREQ_BANDS :: "(string \<times> real \<times> real) list" where
  "FREQ_BANDS =
     [(''Delta'', (1.0, 4.0)), (''Theta'', (4.0, 8.0)),
      (''Alpha'', (8.0, 13.0)), (''Beta'', (13.0, 25.0))]"

definition TOTAL_POWER_RANGE :: "real \<times> real" where
  "TOTAL_POWER_RANGE = (1.0, 25.0)"

text \<open>The boolean array \<open>(freqs >= f_low) & (freqs <= f_high)\<close>.\<close>

definition freq_mask :: "real list \<Rightarrow> real \<Rightarrow> real \<Rightarrow> bool list" where
  "freq_mask freqs f_low f_high = map (\<lambda>f. f_low \<le> f \<and> f \<le> f_high) freqs"

text \<open>Boolean-mask indexing \<open>xs[mask]\<close> of a one-dimensional array (a row of
  \<open>psd[:, mask]\<close>), for a mask as long as the array.\<close>

definition select_mask :: "'a list \<Rightarrow> bool list \<Rightarrow> 'a list" where
  "select_mask xs bmask = map fst (filter snd (zip xs bmask))"

text \<open>
  \<open>scipy.integrate.simpson(y, x=x)\<close> is a library routine; it is a parameter of the
  model: a function from the samples of one channel and their abscissae to the integral.
\<close>

type_synonym integrator = "real list \<Rightarrow> real list \<Rightarrow> real"

definition compute_band_power ::
  "integrator \<Rightarrow> real list list \<Rightarrow> real list \<Rightarrow> real \<times> real \<Rightarrow> real list" where
  "compute_band_power simpson psd freqs band =
     (case band of (f_low, f_high) \<Rightarrow>
        let bmask = freq_mask freqs f_low f_high
        in if \<not> list_ex (\<lambda>b. b) bmask then replicate (length psd) 0
           else map (\<lambda>row. simpson (select_mask row bmask) (select_mask freqs bmask)) psd)"

definition compute_relative_power ::
  "integrator \<Rightarrow> real list list \<Rightarrow> real list \<Rightarrow> real \<times> real \<Rightarrow> (real \<times> real) option
     \<Rightarrow> real list" where
  "compute_relative_power simpson psd freqs band total_range =
     (let total_range = (case total_range of None \<Rightarrow> TOTAL_POWER_RANGE | Some r \<Rightarrow> r);
          band_power = compute_band_power simpson psd freqs band;
          total_power = compute_band_power simpson psd freqs total_range;
          total_power = map (\<lambda>t. if 0 < t then t else 1 / 10 ^ 10) total_power
      in map (\<lambda>(b, t). b / t) (zip band_power total_power))"

text \<open>
  The library routine on at most three samples, for unequally spaced abscissae: nothing to
  integrate for one sample, the trapezoid for two, and one panel of Simpson's rule for three.
  It is the integrator of the instances below, which hand it three samples.
\<close>

fun simpson_small :: integrator where
  "simpson_small [y0, y1, y2] [x0, x1, x2] =
     (let h0 = x1 - x0; h1 = x2 - x1;
          hsum = h0 + h1; hprod = h0 * h1; h0divh1 = h0 / h1
      in hsum / 6 * (y0 * (2 - 1 / h0divh1) + y1 * (hsum * hsum / hprod) + y2 * (2 - h0divh1)))"
| "simpson_small [y0, y1] [x0, x1] = (x1 - x0) * (y0 + y1) / 2"
| "simpson_small ys xs = 0"

section \<open>Asymmetry (qeeg\_analyzer.py, channel\_map.py)\<close>

definition ASYMMETRY_PAIRS :: "(string \<times> string) list" where
  "ASYMMETRY_PAIRS =
     [(''Fp1'', ''Fp2''), (''F7'', ''F8''), (''F3'', ''F4''), (''T7'', ''T8''),
      (''C3'', ''C4''), (''P7'', ''P8''), (''P3'', ''P4''), (''O1'', ''O2'')]"

text \<open>\<open>list.index\<close> for an element that occurs in the list: the first position.\<close>

definition list_index :: "'a list \<Rightarrow> 'a \<Rightarrow> nat" where
  "list_index xs x = length (takeWhile (\<lambda>y. y \<noteq> x) xs)"

text \<open>The loop over \<open>ASYMMETRY_PAIRS\<close> for one band. The second argument is
  \<open>self.band_powers.get(band_name)\<close>: the lookup and the two array reads happen only for
  a pair whose channels are both present, and raise when the key or an index is missing.\<close>

fun asymmetry_pairs ::
  "string list \<Rightarrow> real list option \<Rightarrow> (string \<times> string) list
     \<Rightarrow> ((string \<times> string) \<times> real) list \<Rightarrow> error + ((string \<times> string) \<times> real) list" where
  "asymmetry_pairs eeg_channels powers [] pairs_values = Inr pairs_values"
| "asymmetry_pairs eeg_channels powers ((left_ch, right_ch) # rest) pairs_values =
     (if left_ch \<in> set eeg_channels \<and> right_ch \<in> set eeg_channels then
        (let left_idx = list_index eeg_channels left_ch;
             right_idx = list_index eeg_channels right_ch
         in case powers of
              None \<Rightarrow> Inl KeyError
            | Some p \<Rightarrow>
                if length p \<le> left_idx \<or> length p \<le> right_idx then Inl IndexError
                else
                  let left_power = max (p ! left_idx) (1 / 10 ^ 20);
                      right_power = max (p ! right_idx) (1 / 10 ^ 20);
                      asym = ln right_power - ln left_power
                  in asymmetry_pairs eeg_channels powers rest
                       (pairs_values @ [((left_ch, right_ch), asym)]))
      else asymmetry_pairs eeg_channels powers rest pairs_values)"

type_synonym asymmetry_map = "string \<rightharpoonup> ((string \<times> string) \<times> real) list"

text \<open>The loop over the bands: \<open>self.asymmetry[band_name] = pairs_values\<close>.\<close>

fun asymmetry_bands ::
  "string list \<Rightarrow> (string \<rightharpoonup> real list) \<Rightarrow> string list \<Rightarrow> asymmetry_map
     \<Rightarrow> error + asymmetry_map" where
  "asymmetry_bands eeg_channels band_powers [] asymmetry = Inr asymmetry"
| "asymmetry_bands eeg_channels band_powers (band_name # rest) asymmetry =
     (case asymmetry_pairs eeg_channels (band_powers band_name) ASYMMETRY_PAIRS [] of
        Inl e \<Rightarrow> Inl e
      | Inr pairs_values \<Rightarrow>
          asymmetry_bands eeg_channels band_powers rest (asymmetry(band_name \<mapsto> pairs_values)))"

definition QEEGAnalyzer_compute_asymmetry ::
  "string list \<Rightarrow> (string \<rightharpoonup> real list) \<Rightarrow> asymmetry_map \<Rightarrow> error + asymmetry_map" where
  "QEEGAnalyzer_compute_asymmetry eeg_channels band_powers asymmetry =
     asymmetry_bands eeg_channels band_powers (map fst FREQ_BANDS) asymmetry"

section \<open>The analyzer's results and the Z-score stage (qeeg\_analyzer.py)\<close>

text \<open>The result fields of \<open>QEEGAnalyzer\<close>, with the method field of its
  \<open>NormativeDB\<close>.\<close>

record analyzer =
  eeg_channels :: "string list"
  normative_method :: string
  freqs :: "real list option"
  psd :: "real list list option"
  band_powers :: "string \<rightharpoonup> real list"
  relative_powers :: "string \<rightharpoonup> real list"
  zscores :: "string \<rightharpoonup> npfloat list"
  coherence :: "string \<rightharpoonup> npfloat list list"
  asymmetry :: asymmetry_map
  peak_freqs :: "string \<rightharpoonup> real \<times> real"
  artifact_stats :: "rejection_stats option"
  channel_quality :: "string \<rightharpoonup> string"
  clean_data :: "matrix option"

text \<open>\<open>NormativeDB.set_method\<close>, on the analyzer that owns the scorer.\<close>

definition set_method :: "string \<Rightarrow> analyzer \<Rightarrow> analyzer" where
  "set_method method a = a\<lparr>normative_method := method\<rparr>"

text \<open>The loop of \<open>_compute_zscores\<close> over the band names; a missing key of
  \<open>relative_powers\<close> raises.\<close>

fun zscores_loop :: "string list \<Rightarrow> analyzer \<Rightarrow> error + analyzer" where
  "zscores_loop [] a = Inr a"
| "zscores_loop (band_name # rest) a =
     (case relative_powers a band_name of
        None \<Rightarrow> Inl KeyError
      | Some rel_power \<Rightarrow>
          (case compute_zscores (normative_method a) rel_power (Some band_name) of
             Inl e \<Rightarrow> Inl e
           | Inr z \<Rightarrow> zscores_loop rest (a\<lparr>zscores := (zscores a)(band_name \<mapsto> z)\<rparr>)))"

definition QEEGAnalyzer_compute_zscores :: "analyzer \<Rightarrow> error + analyzer" where
  "QEEGAnalyzer_compute_zscores a = zscores_loop (map fst FREQ_BANDS) a"

definition recompute_zscores :: "analyzer \<Rightarrow> error + analyzer" where
  "recompute_zscores a = QEEGAnalyzer_compute_zscores a"

section \<open>Coherence and progress (qeeg\_analyzer.py)\<close>

text \<open>\<open>_report_progress\<close>: the observer's callback, when one is set, receives the
  percentage; the model records the percentages in the order they are sent.\<close>

definition report_progress :: "bool \<Rightarrow> int \<Rightarrow> int list \<Rightarrow> int list" where
  "report_progress callback_set percent sent = (if callback_set then sent @ [percent] else sent)"

text \<open>
  \<open>SignalProcessor.compute_coherence\<close> hands both channels to \<open>scipy.signal.coherence\<close>,
  a library routine: it is a parameter of the model, returning the frequency axis and the
  coherence values, or the error it raised.
\<close>

type_synonym coherence_fn = "real list \<Rightarrow> real list \<Rightarrow> error + real list \<times> real list"

text \<open>The local variables of \<open>_compute_coherence\<close>: \<open>f\<close> is unbound until the first
  pair has been computed; \<open>raised\<close> holds the exception that ended the loops.\<close>

record coh_state =
  f_var :: "real list option"
  coh_spectra :: "nat \<times> nat \<rightharpoonup> real list"
  n_done :: nat
  sent :: "int list"
  raised :: "error option"

text \<open>The body of the inner loop. \<open>int(40 * done / total_pairs)\<close> is the floor of a
  non-negative quotient.\<close>

definition pair_step ::
  "bool \<Rightarrow> coherence_fn \<Rightarrow> real list list \<Rightarrow> nat \<Rightarrow> nat \<Rightarrow> nat \<Rightarrow> coh_state \<Rightarrow> coh_state" where
  "pair_step callback_set coh data total_pairs i j st =
     (if raised st \<noteq> None then st
      else if length data \<le> i \<or> length data \<le> j then st\<lparr>raised := Some IndexError\<rparr>
      else case coh (data ! i) (data ! j) of
             Inl e \<Rightarrow> st\<lparr>raised := Some e\<rparr>
           | Inr (f, Cxy) \<Rightarrow>
               let d = n_done st + 1;
                   st' = st\<lparr>f_var := Some f,
                            coh_spectra := (coh_spectra st)((i, j) \<mapsto> Cxy),
                            n_done := d\<rparr>
               in if d mod 20 = 0
                  then st'\<lparr>sent := report_progress callback_set
                                      (45 + (40 * int d) div int total_pairs) (sent st')\<rparr>
                  else st')"

definition pair_loops ::
  "bool \<Rightarrow> coherence_fn \<Rightarrow> real list list \<Rightarrow> nat \<Rightarrow> int list \<Rightarrow> coh_state" where
  "pair_loops callback_set coh data n sent0 =
     (let total_pairs = n * (n - 1) div 2
      in fold (\<lambda>i st. fold (\<lambda>j st. pair_step callback_set coh data total_pairs i j st)
                         [i + 1..<n] st)
           [0..<n]
           \<lparr>f_var = None, coh_spectra = Map.empty, n_done = 0, sent = sent0, raised = None\<rparr>)"

text \<open>\<open>np.eye(n)\<close> and the assignment \<open>matrix[i, j] = v\<close>.\<close>

definition eye :: "nat \<Rightarrow> npfloat list list" where
  "eye n = map (\<lambda>i. map (\<lambda>j. if i = j then Fin 1 else Fin 0) [0..<n]) [0..<n]"

definition set_entry :: "npfloat list list \<Rightarrow> nat \<Rightarrow> nat \<Rightarrow> npfloat \<Rightarrow> npfloat list list" where
  "set_entry m i j v = m[i := (m ! i)[j := v]]"

text \<open>The matrix of one band: every pair \<open>i < j\<close> was stored by the first loops.\<close>

definition band_matrix ::
  "nat \<Rightarrow> (nat \<times> nat \<rightharpoonup> real list) \<Rightarrow> real list \<Rightarrow> real \<Rightarrow> real \<Rightarrow> npfloat list list" where
  "band_matrix n spectra f f_low f_high =
     (let band_mask = freq_mask f f_low f_high
      in fold (\<lambda>i m. fold (\<lambda>j m.
                   let Cxy = the (spectra (i, j));
                       mean_coh = np_mean (select_mask Cxy band_mask)
                   in set_entry (set_entry m i j mean_coh) j i mean_coh)
                 [i + 1..<n] m)
           [0..<n] (eye n))"

text \<open>\<open>_compute_coherence\<close> for \<open>n_eeg = n\<close>: the percentages sent so far go in, those
  sent afterwards come out, with the new entries of \<open>self.coherence\<close> or the exception.\<close>

definition QEEGAnalyzer_compute_coherence ::
  "bool \<Rightarrow> coherence_fn \<Rightarrow> real list list \<Rightarrow> nat \<Rightarrow> int list
     \<Rightarrow> int list \<times> (error + (string \<times> npfloat list list) list)" where
  "QEEGAnalyzer_compute_coherence callback_set coh data n sent0 =
     (let st = pair_loops callback_set coh data n sent0
      in case raised st of
           Some e \<Rightarrow> (sent st, Inl e)
         | None \<Rightarrow>
             (case f_var st of
                None \<Rightarrow> (sent st, if FREQ_BANDS = [] then Inr [] else Inl UnboundLocalError)
              | Some f \<Rightarrow>
                  (sent st,
                   Inr (map (\<lambda>(band_name, f_low, f_high).
                               (band_name, band_matrix n (coh_spectra st) f f_low f_high))
                          FREQ_BANDS))))"

text \<open>
  The stages of \<open>run_full_analysis\<close>. Only the coherence stage is computed by the model;
  whether another stage raises is given by the parameter \<open>raises\<close>.
\<close>

datatype stage =
    DetectChannelQuality | ApplyChannelFiltering | RejectArtifacts | ComputePSD
  | ComputeBandPowers | ComputeZScores | ComputeCoherence | ComputeAsymmetry
  | ComputePeakFrequencies

definition run_stage ::
  "bool \<Rightarrow> (stage \<Rightarrow> error option) \<Rightarrow> coherence_fn \<Rightarrow> real list list \<Rightarrow> nat \<Rightarrow> stage
     \<Rightarrow> int list \<Rightarrow> int list \<times> error option" where
  "run_stage callback_set raises coh data n stg sent0 =
     (if stg = ComputeCoherence
      then (case QEEGAnalyzer_compute_coherence callback_set coh data n sent0 of
              (sent1, Inl e) \<Rightarrow> (sent1, Some e)
            | (sent1, Inr _) \<Rightarrow> (sent1, None))
      else (sent0, raises stg))"

text \<open>The body of \<open>run_full_analysis\<close>, line by line: report, then run the stage.\<close>

definition ANALYSIS_STEPS :: "(int \<times> stage) list" where
  "ANALYSIS_STEPS =
     [(2, DetectChannelQuality), (4, ApplyChannelFiltering), (6, RejectArtifacts),
      (10, ComputePSD), (20, ComputeBandPowers), (35, ComputeZScores),
      (45, ComputeCoherence), (85, ComputeAsymmetry), (92, ComputePeakFrequencies)]"

fun run_steps ::
  "bool \<Rightarrow> (stage \<Rightarrow> error option) \<Rightarrow> coherence_fn \<Rightarrow> real list list \<Rightarrow> nat
     \<Rightarrow> (int \<times> stage) list \<Rightarrow> int list \<Rightarrow> int list \<times> error option" where
  "run_steps callback_set raises coh data n [] sent0 =
     (report_progress callback_set 100 sent0, None)"
| "run_steps callback_set raises coh data n ((percent, stg) # rest) sent0 =
     (case run_stage callback_set raises coh data n stg
             (report_progress callback_set percent sent0) of
        (sent1, Some e) \<Rightarrow> (sent1, Some e)
      | (sent1, None) \<Rightarrow> run_steps callback_set raises coh data n rest sent1)"

definition run_full_analysis ::
  "bool \<Rightarrow> (stage \<Rightarrow> error option) \<Rightarrow> coherence_fn \<Rightarrow> real list list \<Rightarrow> nat
     \<Rightarrow> int list \<times> error option" where
  "run_full_analysis callback_set raises coh data n =
     run_steps callback_set raises coh data n ANALYSIS_STEPS []"

section \<open>Z-scores: results\<close>

lemma normative_dom: "dom NORMATIVE_RELATIVE_POWER = {''Delta'', ''Theta'', ''Alpha'', ''Beta''}"
  by (auto simp: NORMATIVE_RELATIVE_POWER_def split: if_splits)

text \<open>
  Claim C1, as amended. For a band name that the table \<open>NORMATIVE_RELATIVE_POWER\<close> does not
  hold, approximate-normative scoring signals no error: \<open>compute_zscore_normative\<close> returns
  the all-zero vector of the input's length, and so does \<open>compute_zscores\<close> under every
  method other than \<open>within\<close>. The one configuration error of the scorer is the
  \<open>ValueError\<close> of \<open>compute_zscores\<close> when such a method is selected and no band name is
  given.
\<close>

theorem normative_absent_band_zero:
  assumes "band_name \<notin> dom NORMATIVE_RELATIVE_POWER"
  shows "compute_zscore_normative channel_values band_name
           = replicate (length channel_values) (Fin 0)
       \<and> (method \<noteq> ''within'' \<longrightarrow>
            compute_zscores method channel_values (Some band_name)
              = Inr (replicate (length channel_values) (Fin 0))
          \<and> compute_zscores method channel_values None = Inl ValueError)"
proof -
  from assms have "NORMATIVE_RELATIVE_POWER band_name = None"
    by (cases "NORMATIVE_RELATIVE_POWER band_name") auto
  then have "compute_zscore_normative channel_values band_name
               = replicate (length channel_values) (Fin 0)"
    by (simp add: compute_zscore_normative_def zeros_like_def map_replicate_const)
  then show ?thesis
    by (simp add: compute_zscores_def)
qed

theorem normative_absent_band_zero_witness:
  "''Gamma'' \<notin> dom NORMATIVE_RELATIVE_POWER
   \<and> compute_zscore_normative [1/2, 1/4] ''Gamma'' = [Fin 0, Fin 0]
   \<and> compute_zscores ''normative'' [1/2, 1/4] (Some ''Gamma'') = Inr [Fin 0, Fin 0]
   \<and> compute_zscores ''normative'' [1/2, 1/4] None = Inl ValueError"
proof -
  have h: "''Gamma'' \<notin> dom NORMATIVE_RELATIVE_POWER"
    by (simp add: NORMATIVE_RELATIVE_POWER_def)
  show ?thesis
    using h normative_absent_band_zero [OF h, of "[1/2, 1/4]" "''normative''"]
    by (simp add: numeral_2_eq_2)
qed

text \<open>
  Claim C1 as stated fails: for the band \<open>Gamma\<close>, which the table does not hold, the
  normative method returns a numeric result (two zeros for two channels) and no error.
\<close>

theorem normative_absent_band_no_error:
  "''Gamma'' \<notin> dom NORMATIVE_RELATIVE_POWER
   \<and> compute_zscores ''normative'' [1/2, 1/4] (Some ''Gamma'') = Inr [Fin 0, Fin 0]"
  by (simp add: NORMATIVE_RELATIVE_POWER_def compute_zscores_def compute_zscore_normative_def
      zeros_like_def)

text \<open>
  Claim C2 at a single-element vector: the sample standard deviation with \<open>ddof = 1\<close> is
  \<open>0/0\<close>, the guard \<open>std < 1e-10\<close> is false for NaN, and the returned Z-score is NaN for
  every value of the one channel.
\<close>

theorem within_subject_single_nan: "compute_zscore_within_subject [x] = [NaN]"
  by (simp add: compute_zscore_within_subject_def np_mean_def np_std_ddof1_def np_div_real_def)

text \<open>What the within-subject method does on the other inputs: nothing is returned for no
  channel, and from two channels on every Z-score is finite.\<close>

lemma within_subject_empty: "compute_zscore_within_subject [] = []"
  by (simp add: compute_zscore_within_subject_def zeros_like_def Let_def)

lemma np_std_ddof1_finite:
  assumes "2 \<le> length xs"
  shows "\<exists>s. np_std_ddof1 xs = Fin s \<and> 0 \<le> s"
proof -
  from assms have n: "real (length xs) \<noteq> 0" by auto
  define m where "m = sum_list xs / real (length xs)"
  have mean: "np_mean xs = Fin m"
    using n by (simp add: np_mean_def np_div_real_def m_def)
  have d: "real_of_int (max (int (length xs) - 1) 0) \<noteq> 0"
    using assms by auto
  have nonneg: "0 \<le> sum_list (map (\<lambda>x. (x - m)\<^sup>2) xs)"
    by (rule sum_list_nonneg) auto
  have dpos: "0 \<le> real_of_int (max (int (length xs) - 1) 0)" by simp
  show ?thesis
    unfolding np_std_ddof1_def mean
    using d nonneg dpos by (simp add: np_div_real_def)
qed

lemma within_subject_finite:
  assumes "2 \<le> length xs"
  shows "list_all is_finite (compute_zscore_within_subject xs)"
proof -
  from assms have n: "real (length xs) \<noteq> 0" by auto
  obtain s where s: "np_std_ddof1 xs = Fin s" "0 \<le> s"
    using np_std_ddof1_finite [OF assms] by blast
  have mean: "np_mean xs = Fin (sum_list xs / real (length xs))"
    using n by (simp add: np_mean_def np_div_real_def)
  show ?thesis
    by (simp add: compute_zscore_within_subject_def s mean zeros_like_def list_all_iff
        is_finite_def np_div_real_def)
qed

lemma within_subject_zero_std:
  assumes "np_less (np_std_ddof1 xs) (Fin (1 / 10 ^ 10))"
  shows "compute_zscore_within_subject xs = replicate (length xs) (Fin 0)"
  using assms by (simp add: compute_zscore_within_subject_def zeros_like_def map_replicate_const)

lemma within_subject_constant:
  assumes "2 \<le> n"
  shows "compute_zscore_within_subject (replicate n c) = replicate n (Fin 0)"
proof -
  have n: "real n \<noteq> 0" using assms by auto
  have mean: "np_mean (replicate n c) = Fin c"
    using n by (simp add: np_mean_def np_div_real_def sum_list_replicate)
  have d: "real_of_int (max (int n - 1) 0) \<noteq> 0" using assms by auto
  have std: "np_std_ddof1 (replicate n c) = Fin 0"
    unfolding np_std_ddof1_def mean using d
    by (simp add: np_div_real_def sum_list_replicate)
  show ?thesis
    by (rule trans [OF within_subject_zero_std]) (simp_all add: std)
qed

section \<open>Artifact rejection: results\<close>

lemma fold_collect:
  "fold (\<lambda>e acc. if P e then acc @ [g e] else acc) xs acc = acc @ map g (filter P xs)"
  by (induction xs arbitrary: acc) simp_all

lemma scan_epochs_filter:
  "scan_epochs rnd data es n thr =
     filter (\<lambda>ep. \<not> (\<exists>r\<in>set (rows ep).
                    \<not> np_le (fl_scale rnd (rnd (Max (set r) - Min (set r))) 1000000) (Fin thr)))
       (map (\<lambda>e. slice_cols data (e * nat es) (e * nat es + nat es)) [0..<nat n])"
  unfolding scan_epochs_def Let_def
  by (simp add: fold_collect filter_map comp_def ptp_uv_def list_all_iff)

lemma scan_epochs_length: "length (scan_epochs rnd data es n thr) \<le> nat n"
  unfolding scan_epochs_filter
  by (rule order_trans [OF length_filter_le]) simp

lemma relax_loop_find:
  "relax_loop rnd data es n ts st =
     (case find (\<lambda>t. MIN_CLEAN_EPOCHS \<le> length (scan_epochs rnd data es n t)) ts of
        Some t \<Rightarrow> (scan_epochs rnd data es n t, Fin t)
      | None \<Rightarrow> if ts = [] then st else (scan_epochs rnd data es n (last ts), Fin (last ts)))"
  by (induction ts arbitrary: st) (auto simp: Let_def split: option.splits)

lemma reject_artifacts_default_enough:
  assumes len: "rnd (EPOCH_DURATION_SEC * sfreq p) = Fin len"
    and es: "es = py_int len"
    and n: "n = int (shape1 data) div es"
    and enough: "MIN_CLEAN_EPOCHS \<le> length (scan_epochs rnd data es n ARTIFACT_THRESHOLD_UV)"
  shows "reject_artifacts rnd p data None None =
           Inr (concatenate_axis1 (scan_epochs rnd data es n ARTIFACT_THRESHOLD_UV),
                p\<lparr>n_total_epochs := n, rejection_threshold := Fin ARTIFACT_THRESHOLD_UV,
                  n_clean_epochs := int (length (scan_epochs rnd data es n ARTIFACT_THRESHOLD_UV))\<rparr>)"
proof -
  have "MIN_CLEAN_EPOCHS \<le> nat n"
    using enough scan_epochs_length [of rnd data es n ARTIFACT_THRESHOLD_UV] by linarith
  then have npos: "0 < n" by (simp add: MIN_CLEAN_EPOCHS_def)
  then have es0: "es \<noteq> 0" using n by auto
  have n0: "n \<noteq> 0" using npos by simp
  have ne: "\<not> length (scan_epochs rnd data es n ARTIFACT_THRESHOLD_UV) < MIN_CLEAN_EPOCHS"
    using enough by simp
  show ?thesis
    using es0 n0 ne
    by (simp add: reject_artifacts_def py_or_def len es [symmetric] n [symmetric] Let_def)
qed


lemma reject_artifacts_default_few:
  assumes len: "rnd (EPOCH_DURATION_SEC * sfreq p) = Fin len"
    and es: "es = py_int len"
    and n: "n = int (shape1 data) div es"
    and npos: "0 < n"
    and few: "length (scan_epochs rnd data es n ARTIFACT_THRESHOLD_UV) < MIN_CLEAN_EPOCHS"
  shows "reject_artifacts rnd p data None None =
     (case find (\<lambda>t. MIN_CLEAN_EPOCHS \<le> length (scan_epochs rnd data es n t)) [150, 200, 300, 500] of
        Some t \<Rightarrow>
          Inr (concatenate_axis1 (scan_epochs rnd data es n t),
               p\<lparr>n_total_epochs := n, rejection_threshold := Fin t,
                 n_clean_epochs := int (length (scan_epochs rnd data es n t))\<rparr>)
      | None \<Rightarrow>
          Inr (data, p\<lparr>n_total_epochs := n, rejection_threshold := PInf,
                       n_clean_epochs := n\<rparr>))"
proof -
  have es0: "es \<noteq> 0" using n npos by auto
  have n0: "n \<noteq> 0" using npos by simp
  show ?thesis
  proof (cases "find (\<lambda>t. MIN_CLEAN_EPOCHS \<le> length (scan_epochs rnd data es n t)) [150, 200, 300, 500]")
    case None
    then have last: "\<not> MIN_CLEAN_EPOCHS \<le> length (scan_epochs rnd data es n 500)"
      by (simp split: if_splits)
    show ?thesis
      using es0 n0 few last None
      by (simp add: reject_artifacts_def py_or_def len es [symmetric] n [symmetric] Let_def
          relax_loop_find del: find.simps)
  next
    case (Some t)
    then have "MIN_CLEAN_EPOCHS \<le> length (scan_epochs rnd data es n t)"
      unfolding find_Some_iff by blast
    then have ok: "\<not> length (scan_epochs rnd data es n t) < MIN_CLEAN_EPOCHS" by simp
    show ?thesis
      using es0 n0 few ok Some
      by (simp add: reject_artifacts_def py_or_def len es [symmetric] n [symmetric] Let_def
          relax_loop_find del: find.simps)
  qed
qed

lemma reject_artifacts_no_epoch:
  assumes len: "rnd (EPOCH_DURATION_SEC * sfreq p) = Fin len"
    and es: "es = py_int len"
    and es0: "es \<noteq> 0"
    and n: "int (shape1 data) div es = 0"
  shows "reject_artifacts rnd p data None None =
           Inr (data, p\<lparr>n_clean_epochs := 0, n_total_epochs := 0\<rparr>)"
  using es0 n
  by (simp add: reject_artifacts_def py_or_def len es [symmetric] Let_def)


lemma map_nth_rows: "map (\<lambda>i. f (xs ! i)) [0..<length xs] = map f xs"
  by (rule nth_equalityI) simp_all

lemma concatenate_epochs_rows:
  assumes "kept \<noteq> []"
  shows "rows (concatenate_axis1 (map (\<lambda>e. slice_cols data (e * k) (e * k + k)) kept))
           = map (\<lambda>r. concat (map (\<lambda>e. take k (drop (e * k) r)) kept)) (rows data)"
proof -
  have len: "length (rows (hd (map (\<lambda>e. slice_cols data (e * k) (e * k + k)) kept)))
               = length (rows data)"
    using assms by (cases kept) (simp_all add: slice_cols_def)
  have "map (\<lambda>i. concat (map (\<lambda>m. rows m ! i)
                 (map (\<lambda>e. slice_cols data (e * k) (e * k + k)) kept))) [0..<length (rows data)]
        = map (\<lambda>i. (\<lambda>r. concat (map (\<lambda>e. take k (drop (e * k) r)) kept)) (rows data ! i))
            [0..<length (rows data)]"
    by (rule map_cong) (simp_all add: slice_cols_def comp_def)
  also have "\<dots> = map (\<lambda>r. concat (map (\<lambda>e. take k (drop (e * k) r)) kept)) (rows data)"
    by (rule map_nth_rows)
  finally show ?thesis
    by (simp add: concatenate_axis1_def len)
qed

lemma epoch_in_range:
  fixes e k m :: nat
  assumes "e < m div k"
  shows "e * k + k \<le> m"
proof -
  have "Suc e \<le> m div k" using assms by simp
  then have "Suc e * k \<le> (m div k) * k" by (rule mult_le_mono1)
  also have "\<dots> \<le> m" by simp
  finally show ?thesis by (simp add: add.commute)
qed

lemma concatenate_epochs_shape1:
  assumes "\<forall>e\<in>set kept. e < shape1 data div k"
  shows "shape1 (concatenate_axis1 (map (\<lambda>e. slice_cols data (e * k) (e * k + k)) kept))
           = length kept * k"
proof -
  have "\<And>e. e \<in> set kept \<Longrightarrow> shape1 (slice_cols data (e * k) (e * k + k)) = k"
  proof -
    fix e assume "e \<in> set kept"
    then have "e < shape1 data div k" using assms by blast
    then have "e * k + k \<le> shape1 data" by (rule epoch_in_range)
    then show "shape1 (slice_cols data (e * k) (e * k + k)) = k"
      by (simp add: slice_cols_def min_def)
  qed
  then have "map (shape1 \<circ> (\<lambda>e. slice_cols data (e * k) (e * k + k))) kept = map (\<lambda>_. k) kept"
    by (intro map_cong) simp_all
  then show ?thesis
    by (simp add: concatenate_axis1_def sum_list_triv map_replicate_const sum_list_replicate)
qed

lemma int_div_nonpos:
  fixes a b :: int
  assumes "0 \<le> a" and "b \<le> 0"
  shows "a div b \<le> 0"
  using assms by (cases "b = 0") (simp_all add: div_nonneg_neg_le0)

lemma nat_div_int:
  assumes "0 < k"
  shows "nat (int m div k) = m div nat k"
  using assms by (metis nat_div_distrib nat_int of_nat_0_le_iff)

lemma upt_32: "[0..<32] = [0, 1, 2, 3, 4, 5, 6, 7, 8, 9, 10, 11, 12, 13, 14, 15, 16, 17, 18, 19, 20, 21, 22,
      23, 24, 25, 26, 27, 28, 29, 30, 31::nat]"
  by (simp add: upt_conv_Cons)

lemma upt_30: "[0..<30] = [0, 1, 2, 3, 4, 5, 6, 7, 8, 9, 10, 11, 12, 13, 14, 15, 16, 17, 18, 19, 20, 21, 22, 23,
      24, 25, 26, 27, 28, 29::nat]"
  by (simp add: upt_conv_Cons)

text \<open>
  The double nearest to 0.0001 is \<open>7378697629483821 / 2 ^ 66\<close>. Its exact product with
  \<open>10 ^ 6\<close> is above 100 by less than half a unit in the last place, so the product the
  code computes is the double 100: an epoch whose peak-to-peak amplitude is that double is
  kept at 100 microvolts.
\<close>

lemma scan_epochs_rounded_threshold:
  assumes "rnd (7378697629483821 / 2 ^ 66) = Fin (7378697629483821 / 2 ^ 66)"
    and "rnd (7378697629483821 / 2 ^ 66 * 1000000) = Fin 100"
  shows "100 < (7378697629483821 / 2 ^ 66 * 1000000 :: real)
       \<and> scan_epochs rnd \<lparr>shape1 = 2, rows = [[0, 7378697629483821 / 2 ^ 66]]\<rparr> 2 1 100
           = [\<lparr>shape1 = 2, rows = [[0, 7378697629483821 / 2 ^ 66]]\<rparr>]"
  using assms
  by (simp add: scan_epochs_def slice_cols_def ptp_uv_def fl_scale_def)

text \<open>
  Claim C3. The recording is cut into \<open>n_epochs\<close> whole epochs of \<open>epoch_samples\<close> samples
  (a shorter remainder is not looked at). At any threshold \<open>thr\<close> a pass over the epochs
  keeps exactly the epochs in which no channel's peak-to-peak amplitude, in microvolts as
  the code computes it in double arithmetic, exceeds \<open>thr\<close> (is not at most \<open>thr\<close>), in
  their order. When at least \<open>MIN_CLEAN_EPOCHS\<close> epochs are kept at the default 100
  microvolts, the analyzer's rejection stage returns the concatenation of the kept epochs
  in order (every channel row is the concatenation of its kept segments), and its
  statistics report the epoch count, the number of kept epochs, their difference as
  rejected epochs, and the threshold 100. This holds for every rounding of the double
  operations; \<open>epoch_len\<close> is the rounded product of the epoch duration and the sampling
  rate.
\<close>

theorem reject_artifacts_default_threshold:
  fixes rnd :: rounding and processor :: signal_processor and data :: matrix
  assumes len: "rnd (EPOCH_DURATION_SEC * sfreq processor) = Fin epoch_len"
  defines "epoch_samples \<equiv> py_int epoch_len"
  defines "n_epochs \<equiv> int (shape1 data) div epoch_samples"
  defines "epoch \<equiv> \<lambda>e. slice_cols data (e * nat epoch_samples)
                           (e * nat epoch_samples + nat epoch_samples)"
  defines "exceeds \<equiv> \<lambda>thr ep. \<exists>r\<in>set (rows ep).
              \<not> np_le (fl_scale rnd (rnd (Max (set r) - Min (set r))) 1000000) (Fin thr)"
  defines "kept \<equiv> filter (\<lambda>e. \<not> exceeds 100 (epoch e)) [0..<nat n_epochs]"
  shows "scan_epochs rnd data epoch_samples n_epochs thr
           = filter (\<lambda>ep. \<not> exceeds thr ep) (map epoch [0..<nat n_epochs])
       \<and> (MIN_CLEAN_EPOCHS \<le> length kept \<longrightarrow>
            (\<exists>clean p stats.
               QEEGAnalyzer_reject_artifacts rnd processor data = Inr (clean, p, stats)
             \<and> clean = concatenate_axis1 (map epoch kept)
             \<and> rows clean
                 = map (\<lambda>r. concat (map (\<lambda>e. take (nat epoch_samples)
                                                 (drop (e * nat epoch_samples) r)) kept))
                     (rows data)
             \<and> shape1 clean = length kept * nat epoch_samples
             \<and> total_epochs stats = n_epochs
             \<and> clean_epochs stats = int (length kept)
             \<and> rejected_epochs stats = total_epochs stats - clean_epochs stats
             \<and> threshold_uv stats = Fin 100))"
proof (intro conjI impI)
  show scan: "scan_epochs rnd data epoch_samples n_epochs thr
           = filter (\<lambda>ep. \<not> exceeds thr ep) (map epoch [0..<nat n_epochs])" for thr
    unfolding exceeds_def epoch_def by (rule scan_epochs_filter)
  assume enough: "MIN_CLEAN_EPOCHS \<le> length kept"
  have scan100: "scan_epochs rnd data epoch_samples n_epochs ARTIFACT_THRESHOLD_UV = map epoch kept"
    unfolding scan kept_def by (simp add: filter_map comp_def ARTIFACT_THRESHOLD_UV_def)
  have enough': "MIN_CLEAN_EPOCHS
                   \<le> length (scan_epochs rnd data epoch_samples n_epochs ARTIFACT_THRESHOLD_UV)"
    using enough by (simp add: scan100)
  have res: "reject_artifacts rnd processor data None None =
           Inr (concatenate_axis1 (map epoch kept),
                processor\<lparr>n_total_epochs := n_epochs,
                  rejection_threshold := Fin ARTIFACT_THRESHOLD_UV,
                  n_clean_epochs := int (length kept)\<rparr>)"
    using reject_artifacts_default_enough [where rnd = rnd, OF len epoch_samples_def [THEN meta_eq_to_obj_eq]
        n_epochs_def [THEN meta_eq_to_obj_eq] enough']
    by (simp add: scan100)
  have "length kept \<le> nat n_epochs"
    unfolding kept_def by (rule order_trans [OF length_filter_le]) simp
  then have npos: "0 < n_epochs" using enough by (simp add: MIN_CLEAN_EPOCHS_def)
  have espos: "0 < epoch_samples"
  proof (rule ccontr)
    assume "\<not> 0 < epoch_samples"
    then have "epoch_samples \<le> 0" by simp
    then have "n_epochs \<le> 0"
      unfolding n_epochs_def by (intro int_div_nonpos) simp_all
    then show False using npos by simp
  qed
  have kne: "kept \<noteq> []" using enough by (auto simp: MIN_CLEAN_EPOCHS_def)
  have bound: "\<forall>e\<in>set kept. e < shape1 data div nat epoch_samples"
    unfolding kept_def n_epochs_def using espos by (simp add: nat_div_int)
  show "\<exists>clean p stats.
               QEEGAnalyzer_reject_artifacts rnd processor data = Inr (clean, p, stats)
             \<and> clean = concatenate_axis1 (map epoch kept)
             \<and> rows clean
                 = map (\<lambda>r. concat (map (\<lambda>e. take (nat epoch_samples)
                                                 (drop (e * nat epoch_samples) r)) kept))
                     (rows data)
             \<and> shape1 clean = length kept * nat epoch_samples
             \<and> total_epochs stats = n_epochs
             \<and> clean_epochs stats = int (length kept)
             \<and> rejected_epochs stats = total_epochs stats - clean_epochs stats
             \<and> threshold_uv stats = Fin 100"
    unfolding QEEGAnalyzer_reject_artifacts_def res epoch_def
    using concatenate_epochs_rows [OF kne, of data "nat epoch_samples"]
      concatenate_epochs_shape1 [OF bound]
    by (simp add: ARTIFACT_THRESHOLD_UV_def)
qed

text \<open>
  An instance: one channel sampled at 1 Hz, 32 epochs of two samples, of which one has a
  peak-to-peak amplitude of 1 V and one of \<open>1 / 4096\<close> V (244.140625 microvolts). Every
  difference and product that occurs is a double, so the operations return their exact
  results.
\<close>

theorem reject_artifacts_default_threshold_witness:
  "\<exists>clean p stats.
     QEEGAnalyzer_reject_artifacts Fin (SignalProcessor_init 1)
       \<lparr>shape1 = 64,
        rows = [[0, 0, 0, 0, 0, 0, 0, 0, 0, 0, 0, 0, 0, 0, 0, 0, 0, 0, 0, 0, 0, 1, 0, 0, 0,
                0, 0, 0, 0, 0, 0, 0, 0, 0, 0, 0, 0, 0, 0, 0, 0, 0, 0, 0, 0, 0, 0, 0, 0, 0,
                0, 0, 0, 0, 0, 0, 0, 0, 0, 0, 0, 0, 1 / 4096, 0]]\<rparr>
       = Inr (clean, p, stats)
     \<and> rows clean = [[0, 0, 0, 0, 0, 0, 0, 0, 0, 0, 0, 0, 0, 0, 0, 0, 0, 0, 0, 0, 0, 0, 0, 0, 0, 0, 0, 0,
        0, 0, 0, 0, 0, 0, 0, 0, 0, 0, 0, 0, 0, 0, 0, 0, 0, 0, 0, 0, 0, 0, 0, 0, 0, 0, 0, 0,
        0, 0, 0, 0]]
     \<and> shape1 clean = 60
     \<and> total_epochs stats = 32 \<and> clean_epochs stats = 30 \<and> rejected_epochs stats = 2
     \<and> threshold_uv stats = Fin 100"
proof -
  define D :: matrix where "D = \<lparr>shape1 = 64,
        rows = [[0, 0, 0, 0, 0, 0, 0, 0, 0, 0, 0, 0, 0, 0, 0, 0, 0, 0, 0, 0, 0, 1, 0, 0, 0,
                0, 0, 0, 0, 0, 0, 0, 0, 0, 0, 0, 0, 0, 0, 0, 0, 0, 0, 0, 0, 0, 0, 0, 0, 0,
                0, 0, 0, 0, 0, 0, 0, 0, 0, 0, 0, 0, 1 / 4096, 0]]\<rparr>"
  define P where "P = SignalProcessor_init 1"
  have len: "Fin (EPOCH_DURATION_SEC * sfreq P) = Fin 2"
    by (simp add: P_def SignalProcessor_init_def EPOCH_DURATION_SEC_def)
  have es: "py_int 2 = 2" by (simp add: py_int_def)
  have nat2: "nat 2 = (2::nat)" by simp
  have n: "nat (int (shape1 D) div 2) = 32"
    by (simp add: D_def)
  have kept: "filter (\<lambda>e. \<not> (\<exists>r\<in>set (rows (slice_cols D (e * 2) (e * 2 + 2))).
                 \<not> np_le (fl_scale Fin (Fin (Max (set r) - Min (set r))) 1000000) (Fin 100)))
                [0..<32]
              = [0, 1, 2, 3, 4, 5, 6, 7, 8, 9, 11, 12, 13, 14, 15, 16, 17, 18, 19, 20, 21,
                22, 23, 24, 25, 26, 27, 28, 29, 30]"
    by (simp add: D_def slice_cols_def upt_32 fl_scale_def)
  have enough: "MIN_CLEAN_EPOCHS \<le> length ([0, 1, 2, 3, 4, 5, 6, 7, 8, 9, 11, 12, 13, 14, 15, 16, 17, 18, 19, 20, 21,
                22, 23, 24, 25, 26, 27, 28, 29, 30] :: nat list)"
    by (simp add: MIN_CLEAN_EPOCHS_def)
  have "\<exists>clean p stats.
     QEEGAnalyzer_reject_artifacts Fin P D = Inr (clean, p, stats)
     \<and> rows clean = [[0, 0, 0, 0, 0, 0, 0, 0, 0, 0, 0, 0, 0, 0, 0, 0, 0, 0, 0, 0, 0, 0, 0, 0, 0, 0, 0, 0,
        0, 0, 0, 0, 0, 0, 0, 0, 0, 0, 0, 0, 0, 0, 0, 0, 0, 0, 0, 0, 0, 0, 0, 0, 0, 0, 0, 0,
        0, 0, 0, 0]]
     \<and> shape1 clean = 60
     \<and> total_epochs stats = 32 \<and> clean_epochs stats = 30 \<and> rejected_epochs stats = 2
     \<and> threshold_uv stats = Fin 100"
    using reject_artifacts_default_threshold
        [where rnd = Fin and processor = P and data = D and thr = 100, OF len,
         unfolded es nat2 n kept] enough
    by (auto simp: D_def)
  then show ?thesis by (simp add: D_def P_def)
qed

text \<open>
  Claim C4, as amended. For a recording with at least one whole epoch of which fewer than
  \<open>MIN_CLEAN_EPOCHS\<close> survive the default 100 microvolts, rejection scans all epochs again
  at 150, 200, 300 and 500 microvolts in that order and stops at the first level with at
  least \<open>MIN_CLEAN_EPOCHS\<close> survivors: the result is their concatenation, their count and
  that level. When no level has enough survivors the input is returned whole, with
  \<open>clean_epochs = total_epochs\<close> and an infinite threshold. In both cases the stage
  returns a result, not an error. For a recording shorter than one epoch (and a non-zero
  epoch length) the input is returned whole with zero total and clean epochs, and the
  threshold field keeps the value it had. An epoch survives a level when no channel's
  peak-to-peak amplitude, as the code computes it in double arithmetic, exceeds the level;
  this holds for every rounding of the double operations.
\<close>

theorem reject_artifacts_relaxation:
  fixes rnd :: rounding and processor :: signal_processor and data :: matrix
  assumes len: "rnd (EPOCH_DURATION_SEC * sfreq processor) = Fin epoch_len"
  defines "epoch_samples \<equiv> py_int epoch_len"
  defines "n_epochs \<equiv> int (shape1 data) div epoch_samples"
  defines "epoch \<equiv> \<lambda>e. slice_cols data (e * nat epoch_samples)
                           (e * nat epoch_samples + nat epoch_samples)"
  defines "exceeds \<equiv> \<lambda>thr ep. \<exists>r\<in>set (rows ep).
              \<not> np_le (fl_scale rnd (rnd (Max (set r) - Min (set r))) 1000000) (Fin thr)"
  defines "survivors \<equiv> \<lambda>thr. filter (\<lambda>ep. \<not> exceeds thr ep) (map epoch [0..<nat n_epochs])"
  shows "(0 < n_epochs \<and> length (survivors 100) < MIN_CLEAN_EPOCHS \<longrightarrow>
            (\<exists>clean p stats.
               QEEGAnalyzer_reject_artifacts rnd processor data = Inr (clean, p, stats)
             \<and> total_epochs stats = n_epochs
             \<and> rejected_epochs stats = total_epochs stats - clean_epochs stats
             \<and> (case find (\<lambda>t. MIN_CLEAN_EPOCHS \<le> length (survivors t)) [150, 200, 300, 500] of
                  Some t \<Rightarrow> clean = concatenate_axis1 (survivors t)
                          \<and> clean_epochs stats = int (length (survivors t))
                          \<and> threshold_uv stats = Fin t
                | None \<Rightarrow> clean = data
                        \<and> clean_epochs stats = total_epochs stats
                        \<and> threshold_uv stats = PInf)))
       \<and> (epoch_samples \<noteq> 0 \<and> n_epochs = 0 \<longrightarrow>
            QEEGAnalyzer_reject_artifacts rnd processor data
              = Inr (data, processor\<lparr>n_clean_epochs := 0, n_total_epochs := 0\<rparr>,
                     \<lparr>total_epochs = 0, clean_epochs = 0, rejected_epochs = 0,
                      threshold_uv = rejection_threshold processor,
                      pct_rejected = fl_scale rnd (rnd 0) 100\<rparr>))"
proof (intro conjI impI)
  have surv: "survivors thr = scan_epochs rnd data epoch_samples n_epochs thr" for thr
    unfolding survivors_def exceeds_def epoch_def by (rule scan_epochs_filter [symmetric])
  {
    assume a: "0 < n_epochs \<and> length (survivors 100) < MIN_CLEAN_EPOCHS"
    then have few: "length (scan_epochs rnd data epoch_samples n_epochs ARTIFACT_THRESHOLD_UV)
                      < MIN_CLEAN_EPOCHS"
      by (simp add: surv ARTIFACT_THRESHOLD_UV_def)
    note res = reject_artifacts_default_few [where rnd = rnd, OF len epoch_samples_def [THEN meta_eq_to_obj_eq]
        n_epochs_def [THEN meta_eq_to_obj_eq] conjunct1 [OF a] few]
    show "\<exists>clean p stats.
               QEEGAnalyzer_reject_artifacts rnd processor data = Inr (clean, p, stats)
             \<and> total_epochs stats = n_epochs
             \<and> rejected_epochs stats = total_epochs stats - clean_epochs stats
             \<and> (case find (\<lambda>t. MIN_CLEAN_EPOCHS \<le> length (survivors t)) [150, 200, 300, 500] of
                  Some t \<Rightarrow> clean = concatenate_axis1 (survivors t)
                          \<and> clean_epochs stats = int (length (survivors t))
                          \<and> threshold_uv stats = Fin t
                | None \<Rightarrow> clean = data
                        \<and> clean_epochs stats = total_epochs stats
                        \<and> threshold_uv stats = PInf)"
      unfolding surv QEEGAnalyzer_reject_artifacts_def res
      by (cases "find (\<lambda>t. MIN_CLEAN_EPOCHS
                             \<le> length (scan_epochs rnd data epoch_samples n_epochs t))
                   [150, 200, 300, 500]") (simp_all del: find.simps)
  }
  {
    assume b: "epoch_samples \<noteq> 0 \<and> n_epochs = 0"
    then have n0: "int (shape1 data) div epoch_samples = 0"
      by (simp add: n_epochs_def)
    show "QEEGAnalyzer_reject_artifacts rnd processor data
              = Inr (data, processor\<lparr>n_clean_epochs := 0, n_total_epochs := 0\<rparr>,
                     \<lparr>total_epochs = 0, clean_epochs = 0, rejected_epochs = 0,
                      threshold_uv = rejection_threshold processor,
                      pct_rejected = fl_scale rnd (rnd 0) 100\<rparr>)"
      unfolding QEEGAnalyzer_reject_artifacts_def
        reject_artifacts_no_epoch [where rnd = rnd, OF len epoch_samples_def [THEN meta_eq_to_obj_eq]
          conjunct1 [OF b] n0]
      by simp
  }
qed

text \<open>
  Three instances, one channel sampled at 1 Hz: thirty epochs of which one has a
  peak-to-peak amplitude of \<open>1 / 8192\<close> V (122.0703125 microvolts), so that 29 survive
  100 microvolts and all thirty survive 150; a single epoch of 1 V, which no level keeps;
  and a recording of one sample. Every difference and product that occurs is a double, so
  the operations return their exact results.
\<close>

theorem reject_artifacts_relaxation_witness:
  "(\<exists>clean p stats.
      QEEGAnalyzer_reject_artifacts Fin (SignalProcessor_init 1)
        \<lparr>shape1 = 60,
         rows = [[0, 0, 0, 0, 0, 0, 0, 0, 0, 0, 0, 0, 0, 0, 0, 0, 0, 0, 0, 0, 0, 0, 0, 0, 0,
                 0, 0, 0, 0, 0, 0, 0, 0, 0, 0, 0, 0, 0, 0, 0, 0, 0, 0, 0, 0, 0, 0, 0, 0, 0,
                 0, 0, 0, 0, 0, 0, 0, 0, 0, 1 / 8192]]\<rparr>
        = Inr (clean, p, stats)
      \<and> clean = \<lparr>shape1 = 60,
         rows = [[0, 0, 0, 0, 0, 0, 0, 0, 0, 0, 0, 0, 0, 0, 0, 0, 0, 0, 0, 0, 0, 0, 0, 0, 0,
                 0, 0, 0, 0, 0, 0, 0, 0, 0, 0, 0, 0, 0, 0, 0, 0, 0, 0, 0, 0, 0, 0, 0, 0, 0,
                 0, 0, 0, 0, 0, 0, 0, 0, 0, 1 / 8192]]\<rparr>
      \<and> total_epochs stats = 30 \<and> clean_epochs stats = 30 \<and> rejected_epochs stats = 0
      \<and> threshold_uv stats = Fin 150)
   \<and> (\<exists>clean p stats.
      QEEGAnalyzer_reject_artifacts Fin (SignalProcessor_init 1) \<lparr>shape1 = 2, rows = [[0, 1]]\<rparr>
        = Inr (clean, p, stats)
      \<and> clean = \<lparr>shape1 = 2, rows = [[0, 1]]\<rparr>
      \<and> total_epochs stats = 1 \<and> clean_epochs stats = 1 \<and> rejected_epochs stats = 0
      \<and> threshold_uv stats = PInf)
   \<and> QEEGAnalyzer_reject_artifacts Fin (SignalProcessor_init 1) \<lparr>shape1 = 1, rows = [[0]]\<rparr>
       = Inr (\<lparr>shape1 = 1, rows = [[0]]\<rparr>, SignalProcessor_init 1,
              \<lparr>total_epochs = 0, clean_epochs = 0, rejected_epochs = 0,
               threshold_uv = Fin 100, pct_rejected = Fin 0\<rparr>)"
proof -
  define P where "P = SignalProcessor_init 1"
  have len: "Fin (EPOCH_DURATION_SEC * sfreq P) = Fin 2"
    by (simp add: P_def SignalProcessor_init_def EPOCH_DURATION_SEC_def)
  have es: "py_int 2 = 2" by (simp add: py_int_def)
  have nat2: "nat 2 = (2::nat)" by simp
  define A :: matrix where "A = \<lparr>shape1 = 60,
         rows = [[0, 0, 0, 0, 0, 0, 0, 0, 0, 0, 0, 0, 0, 0, 0, 0, 0, 0, 0, 0, 0, 0, 0, 0, 0,
                 0, 0, 0, 0, 0, 0, 0, 0, 0, 0, 0, 0, 0, 0, 0, 0, 0, 0, 0, 0, 0, 0, 0, 0, 0,
                 0, 0, 0, 0, 0, 0, 0, 0, 0, 1 / 8192]]\<rparr>"
  define survA where "survA thr = filter
      (\<lambda>ep. \<not> (\<exists>r\<in>set (rows ep).
                 \<not> np_le (fl_scale Fin (Fin (Max (set r) - Min (set r))) 1000000) (Fin thr)))
      (map (\<lambda>e. slice_cols A (e * 2) (e * 2 + 2)) [0..<30])" for thr :: real
  have nA: "int (shape1 A) div 2 = 30" by (simp add: A_def)
  have nat30: "nat 30 = (30::nat)" by simp
  have lA100: "length (survA 100) = 29"
    by (simp add: survA_def A_def slice_cols_def upt_30 fl_scale_def)
  have lA150: "length (survA 150) = 30"
    by (simp add: survA_def A_def slice_cols_def upt_30 fl_scale_def)
  have cA150: "concatenate_axis1 (survA 150) = A"
    by (simp add: survA_def A_def slice_cols_def upt_30 concatenate_axis1_def fl_scale_def)
  have hypA: "0 < (30::int) \<and> length (survA 100) < MIN_CLEAN_EPOCHS"
    by (simp add: lA100 MIN_CLEAN_EPOCHS_def)
  have findA: "find (\<lambda>t. MIN_CLEAN_EPOCHS \<le> length (survA t)) [150, 200, 300, 500] = Some 150"
    by (simp add: lA150 MIN_CLEAN_EPOCHS_def)
  have a: "\<exists>clean p stats.
      QEEGAnalyzer_reject_artifacts Fin P A = Inr (clean, p, stats)
      \<and> clean = A
      \<and> total_epochs stats = 30 \<and> clean_epochs stats = 30 \<and> rejected_epochs stats = 0
      \<and> threshold_uv stats = Fin 150"
    using reject_artifacts_relaxation [where rnd = Fin and processor = P and data = A, OF len,
        unfolded es nat2 nA nat30, folded survA_def, unfolded findA, THEN conjunct1] hypA
    by (auto simp: lA150 cA150)
  define B :: matrix where "B = \<lparr>shape1 = 2, rows = [[0, 1]]\<rparr>"
  define survB where "survB thr = filter
      (\<lambda>ep. \<not> (\<exists>r\<in>set (rows ep).
                 \<not> np_le (fl_scale Fin (Fin (Max (set r) - Min (set r))) 1000000) (Fin thr)))
      (map (\<lambda>e. slice_cols B (e * 2) (e * 2 + 2)) [0..<1])" for thr :: real
  have nB: "int (shape1 B) div 2 = 1" by (simp add: B_def)
  have nat1: "nat 1 = (1::nat)" by simp
  have lB: "survB 100 = []" "survB 150 = []" "survB 200 = []" "survB 300 = []" "survB 500 = []"
    by (simp_all add: survB_def B_def slice_cols_def fl_scale_def)
  have hypB: "0 < (1::int) \<and> length (survB 100) < MIN_CLEAN_EPOCHS"
    by (simp add: lB MIN_CLEAN_EPOCHS_def)
  have findB: "find (\<lambda>t. MIN_CLEAN_EPOCHS \<le> length (survB t)) [150, 200, 300, 500] = None"
    by (simp add: lB MIN_CLEAN_EPOCHS_def)
  have b: "\<exists>clean p stats.
      QEEGAnalyzer_reject_artifacts Fin P B = Inr (clean, p, stats)
      \<and> clean = B
      \<and> total_epochs stats = 1 \<and> clean_epochs stats = 1 \<and> rejected_epochs stats = 0
      \<and> threshold_uv stats = PInf"
    using reject_artifacts_relaxation [where rnd = Fin and processor = P and data = B, OF len,
        unfolded es nat2 nB nat1, folded survB_def, unfolded findB, THEN conjunct1] hypB
    by auto
  define C :: matrix where "C = \<lparr>shape1 = 1, rows = [[0]]\<rparr>"
  have nC: "int (shape1 C) div 2 = 0" by (simp add: C_def)
  have c: "QEEGAnalyzer_reject_artifacts Fin P C
       = Inr (C, P, \<lparr>total_epochs = 0, clean_epochs = 0, rejected_epochs = 0,
               threshold_uv = Fin 100, pct_rejected = Fin 0\<rparr>)"
    using reject_artifacts_relaxation [where rnd = Fin and processor = P and data = C, OF len,
        unfolded es nC, THEN conjunct2]
    by (simp add: P_def SignalProcessor_init_def ARTIFACT_THRESHOLD_UV_def fl_scale_def)
  show ?thesis
    using a b c by (simp add: A_def B_def C_def P_def)
qed

text \<open>
  Claim C4 as stated fails on a recording shorter than one epoch (one sample at 1 Hz, where
  every operation is exact): no epoch survives the most permissive level, and the reported
  threshold is the processor's initial 100 microvolts, not the infinite marker.
\<close>

theorem reject_artifacts_no_epoch_threshold:
  "length (scan_epochs Fin \<lparr>shape1 = 1, rows = [[0]]\<rparr> 2 0 500) < MIN_CLEAN_EPOCHS
   \<and> QEEGAnalyzer_reject_artifacts Fin (SignalProcessor_init 1) \<lparr>shape1 = 1, rows = [[0]]\<rparr>
       = Inr (\<lparr>shape1 = 1, rows = [[0]]\<rparr>, SignalProcessor_init 1,
              \<lparr>total_epochs = 0, clean_epochs = 0, rejected_epochs = 0,
               threshold_uv = Fin 100, pct_rejected = Fin 0\<rparr>)"
  by (simp add: QEEGAnalyzer_reject_artifacts_def reject_artifacts_def SignalProcessor_init_def
      py_or_def py_int_def EPOCH_DURATION_SEC_def ARTIFACT_THRESHOLD_UV_def scan_epochs_def
      MIN_CLEAN_EPOCHS_def fl_scale_def)

section \<open>Band power and relative power: results\<close>

lemma select_mask_nths:
  "select_mask xs (map P fs) = nths xs {i. i < length fs \<and> P (fs ! i)}"
proof (induction fs arbitrary: xs)
  case Nil
  then show ?case by (simp add: select_mask_def)
next
  case (Cons f fs)
  show ?case
  proof (cases xs)
    case Nil
    then show ?thesis by (simp add: select_mask_def)
  next
    case (Cons x xs')
    have "{j. Suc j \<in> {i. i < length (f # fs) \<and> P ((f # fs) ! i)}}
            = {i. i < length fs \<and> P (fs ! i)}"
      by auto
    then show ?thesis
      using Cons.IH [of xs'] by (simp add: Cons select_mask_def nths_Cons)
  qed
qed

lemma select_mask_filter: "select_mask fs (map P fs) = filter P fs"
  by (induction fs) (simp_all add: select_mask_def)

lemma mask_any: "list_ex (\<lambda>b. b) (freq_mask fs lo hi) = (\<exists>f\<in>set fs. lo \<le> f \<and> f \<le> hi)"
  by (auto simp: freq_mask_def list_ex_iff)

lemma compute_band_power_length:
  fixes psd :: "real list list" and freqs :: "real list"
  shows "length (compute_band_power simpson psd freqs band) = length psd"
  by (cases band) (simp add: compute_band_power_def Let_def)

lemma compute_band_power_masked:
  fixes psd :: "real list list" and freqs :: "real list"
  assumes "\<exists>f\<in>set freqs. f_low \<le> f \<and> f \<le> f_high"
  shows "compute_band_power simpson psd freqs (f_low, f_high)
           = map (\<lambda>row. simpson
                     (nths row {i. i < length freqs \<and> f_low \<le> freqs ! i \<and> freqs ! i \<le> f_high})
                     (filter (\<lambda>f. f_low \<le> f \<and> f \<le> f_high) freqs)) psd"
proof -
  have any: "list_ex (\<lambda>b. b) (freq_mask freqs f_low f_high)"
    using assms by (simp add: mask_any)
  have x: "select_mask freqs (freq_mask freqs f_low f_high)
             = filter (\<lambda>f. f_low \<le> f \<and> f \<le> f_high) freqs"
    unfolding freq_mask_def by (rule select_mask_filter)
  have y: "select_mask row (freq_mask freqs f_low f_high)
             = nths row {i. i < length freqs \<and> f_low \<le> freqs ! i \<and> freqs ! i \<le> f_high}"
    for row :: "real list"
    unfolding freq_mask_def by (rule select_mask_nths)
  have x': "nths freqs {i. i < length freqs \<and> f_low \<le> freqs ! i \<and> freqs ! i \<le> f_high}
             = filter (\<lambda>f. f_low \<le> f \<and> f \<le> f_high) freqs"
    using x by (simp only: y)
  show ?thesis
    using any by (simp add: compute_band_power_def Let_def y x')
qed

lemma compute_relative_power_nth:
  fixes psd :: "real list list" and freqs :: "real list"
  assumes "i < length psd"
  shows "compute_relative_power simpson psd freqs band None ! i
           = compute_band_power simpson psd freqs band ! i
             / (if 0 < compute_band_power simpson psd freqs (1, 25) ! i
                then compute_band_power simpson psd freqs (1, 25) ! i else 1 / 10 ^ 10)"
  using assms
  by (simp add: compute_relative_power_def Let_def TOTAL_POWER_RANGE_def
      compute_band_power_length)

text \<open>
  Claim C6, as amended. For a band that holds a frequency bin, the band power of every
  channel is the library's Simpson integral of the channel's PSD samples at exactly the
  bins with \<open>f_low \<le> freq \<and> freq \<le> f_high\<close>, against the frequency-axis values of those
  bins. Relative power has one value per channel: the band power over the total power of
  the fixed range 1 to 25 Hz when that total is positive, and the band power over
  \<open>1e-10\<close> when it is not. The divisor is therefore always positive (there is no division
  by zero), and the quotient is non-negative whenever the band power is non-negative;
  nothing makes it non-negative otherwise.
\<close>

theorem band_and_relative_power:
  fixes simpson :: integrator and psd :: "real list list" and freqs :: "real list"
  shows "((\<exists>f\<in>set freqs. f_low \<le> f \<and> f \<le> f_high) \<longrightarrow>
            compute_band_power simpson psd freqs (f_low, f_high)
              = map (\<lambda>row. simpson
                     (nths row {i. i < length freqs \<and> f_low \<le> freqs ! i \<and> freqs ! i \<le> f_high})
                     (filter (\<lambda>f. f_low \<le> f \<and> f \<le> f_high) freqs)) psd)
       \<and> length (compute_relative_power simpson psd freqs band None) = length psd
       \<and> (\<forall>i<length psd.
            (let band_power = compute_band_power simpson psd freqs band ! i;
                 total_power = compute_band_power simpson psd freqs (1, 25) ! i;
                 relative = compute_relative_power simpson psd freqs band None ! i
             in relative = band_power / (if 0 < total_power then total_power else 1 / 10 ^ 10)
              \<and> 0 < (if 0 < total_power then total_power else 1 / 10 ^ 10)
              \<and> (0 < total_power \<longrightarrow> relative = band_power / total_power)
              \<and> (total_power \<le> 0 \<longrightarrow> relative = band_power * 10 ^ 10)
              \<and> (0 \<le> band_power \<longrightarrow> 0 \<le> relative)))"
proof (intro conjI impI allI)
  assume "\<exists>f\<in>set freqs. f_low \<le> f \<and> f \<le> f_high"
  then show "compute_band_power simpson psd freqs (f_low, f_high)
              = map (\<lambda>row. simpson
                     (nths row {i. i < length freqs \<and> f_low \<le> freqs ! i \<and> freqs ! i \<le> f_high})
                     (filter (\<lambda>f. f_low \<le> f \<and> f \<le> f_high) freqs)) psd"
    by (rule compute_band_power_masked)
next
  show "length (compute_relative_power simpson psd freqs band None) = length psd"
    by (simp add: compute_relative_power_def Let_def compute_band_power_length)
next
  fix i assume i: "i < length psd"
  show "let band_power = compute_band_power simpson psd freqs band ! i;
            total_power = compute_band_power simpson psd freqs (1, 25) ! i;
            relative = compute_relative_power simpson psd freqs band None ! i
        in relative = band_power / (if 0 < total_power then total_power else 1 / 10 ^ 10)
         \<and> 0 < (if 0 < total_power then total_power else 1 / 10 ^ 10)
         \<and> (0 < total_power \<longrightarrow> relative = band_power / total_power)
         \<and> (total_power \<le> 0 \<longrightarrow> relative = band_power * 10 ^ 10)
         \<and> (0 \<le> band_power \<longrightarrow> 0 \<le> relative)"
    unfolding Let_def compute_relative_power_nth [OF i] by simp
qed

text \<open>
  An instance on the even axis 1, 2, 3 Hz: the PSD of the first channel is 1, 2, 3 and
  that of the second is zero. The band from 1 to 3 Hz and the total range both hold the
  three bins; Simpson's rule gives the band power 4 for the first channel, whose relative
  power is 1, and the zero total of the second channel is replaced by \<open>1e-10\<close>.
\<close>

theorem band_and_relative_power_witness:
  "(\<exists>f\<in>set [1, 2, 3 :: real]. 1 \<le> f \<and> f \<le> 3)
   \<and> compute_band_power simpson_small [[1, 2, 3], [0, 0, 0]] [1, 2, 3] (1, 3) = [4, 0]
   \<and> compute_band_power simpson_small [[1, 2, 3], [0, 0, 0]] [1, 2, 3] (1, 25) = [4, 0]
   \<and> compute_relative_power simpson_small [[1, 2, 3], [0, 0, 0]] [1, 2, 3] (1, 3) None = [1, 0]
   \<and> compute_relative_power simpson_small [[1, 2, 3], [0, 0, 0]] [1, 2, 3] (1, 3) None ! 0
       = compute_band_power simpson_small [[1, 2, 3], [0, 0, 0]] [1, 2, 3] (1, 3) ! 0
         / compute_band_power simpson_small [[1, 2, 3], [0, 0, 0]] [1, 2, 3] (1, 25) ! 0
   \<and> 0 \<le> compute_relative_power simpson_small [[1, 2, 3], [0, 0, 0]] [1, 2, 3] (1, 3) None ! 1"
proof -
  define M :: "real list list" where "M = [[1, 2, 3], [0, 0, 0]]"
  define F :: "real list" where "F = [1, 2, 3]"
  have h: "\<exists>f\<in>set F. 1 \<le> f \<and> f \<le> 3" by (simp add: F_def)
  have bp: "compute_band_power simpson_small M F (1, 3) = [4, 0]"
    by (simp add: compute_band_power_def freq_mask_def select_mask_def Let_def M_def F_def)
  have tp: "compute_band_power simpson_small M F (1, 25) = [4, 0]"
    by (simp add: compute_band_power_def freq_mask_def select_mask_def Let_def M_def F_def)
  have rp: "compute_relative_power simpson_small M F (1, 3) None = [1, 0]"
    by (simp add: compute_relative_power_def TOTAL_POWER_RANGE_def bp tp Let_def)
  note t = band_and_relative_power [where simpson = simpson_small and psd = M and freqs = F
      and band = "(1, 3)" and f_low = 1 and f_high = 3]
  have each: "\<forall>i<length M.
            (let band_power = compute_band_power simpson_small M F (1, 3) ! i;
                 total_power = compute_band_power simpson_small M F (1, 25) ! i;
                 relative = compute_relative_power simpson_small M F (1, 3) None ! i
             in relative = band_power / (if 0 < total_power then total_power else 1 / 10 ^ 10)
              \<and> 0 < (if 0 < total_power then total_power else 1 / 10 ^ 10)
              \<and> (0 < total_power \<longrightarrow> relative = band_power / total_power)
              \<and> (total_power \<le> 0 \<longrightarrow> relative = band_power * 10 ^ 10)
              \<and> (0 \<le> band_power \<longrightarrow> 0 \<le> relative))"
    using t by (elim conjE)
  have len: "0 < length M" "1 < length M" by (simp_all add: M_def)
  have tp0: "0 < compute_band_power simpson_small M F (1, 25) ! 0" by (simp add: tp)
  have bp1: "0 \<le> compute_band_power simpson_small M F (1, 3) ! 1" by (simp add: bp)
  have r0: "compute_relative_power simpson_small M F (1, 3) None ! 0
              = compute_band_power simpson_small M F (1, 3) ! 0
                / compute_band_power simpson_small M F (1, 25) ! 0"
    using each [rule_format, OF len(1)] tp0 unfolding Let_def by blast
  have r1: "0 \<le> compute_relative_power simpson_small M F (1, 3) None ! 1"
    using each [rule_format, OF len(2)] bp1 unfolding Let_def by blast
  show ?thesis
    using h bp tp rp r0 r1 unfolding M_def F_def by blast
qed

text \<open>
  Claim C6 as stated fails. On the frequency axis 1, 2, 5 Hz the PSD 1, 0, 0 is
  non-negative, and Simpson's rule for unequal spacing gives the first sample the weight
  \<open>- 2 / 3\<close>: the band power from 1 to 5 Hz is negative, the total power (the same three bins)
  is not positive and is replaced by \<open>1e-10\<close>, and the relative power is negative.
\<close>

theorem relative_power_negative:
  "list_all (list_all (\<lambda>v. 0 \<le> v)) [[1, 0, 0 :: real]]
   \<and> compute_band_power simpson_small [[1, 0, 0]] [1, 2, 5] (1, 5) = [- 2 / 3]
   \<and> compute_relative_power simpson_small [[1, 0, 0]] [1, 2, 5] (1, 5) None
       = [- 20000000000 / 3]
   \<and> compute_relative_power simpson_small [[1, 0, 0]] [1, 2, 5] (1, 5) None ! 0 < 0"
  by (simp add: compute_relative_power_def compute_band_power_def TOTAL_POWER_RANGE_def
      freq_mask_def select_mask_def Let_def)

text \<open>The same happens on an even axis with any integrator that is exact on a constant,
  when the samples handed to \<open>compute_relative_power\<close> are negative.\<close>

lemma relative_power_negative_constant:
  fixes simpson :: integrator
  assumes "simpson [- 1, - 1, - 1] [1, 7 / 4, 5 / 2] = - 3 / 2"
  shows "compute_relative_power simpson [[- 1, - 1, - 1]] [1, 7 / 4, 5 / 2] (1, 5 / 2) None
           = [- 15000000000]"
  using assms
  by (simp add: compute_relative_power_def compute_band_power_def TOTAL_POWER_RANGE_def
      freq_mask_def select_mask_def Let_def)

text \<open>
  Claim C10. When no value of the frequency axis lies in \<open>[f_low, f_high]\<close>, band power is
  the all-zero vector with one entry per channel of the PSD matrix.
\<close>

theorem band_power_empty_band:
  fixes psd :: "real list list" and freqs :: "real list"
  assumes "\<forall>f\<in>set freqs. \<not> (f_low \<le> f \<and> f \<le> f_high)"
  shows "compute_band_power simpson psd freqs (f_low, f_high) = replicate (length psd) 0"
  using assms by (simp add: compute_band_power_def Let_def mask_any)

theorem band_power_empty_band_witness:
  "list_all (\<lambda>f. \<not> (1 \<le> f \<and> f \<le> 4)) [0, 1 / 2 :: real]
   \<and> compute_band_power (\<lambda>ys xs. sum_list ys) [[1, 2], [3, 4]] [0, 1 / 2] (1, 4) = [0, 0]"
proof -
  have h: "\<forall>f\<in>set [0, 1 / 2 :: real]. \<not> (1 \<le> f \<and> f \<le> 4)" by simp
  show ?thesis
    using h band_power_empty_band [OF h, of "\<lambda>ys xs. sum_list ys" "[[1, 2], [3, 4]]"]
    by (simp add: numeral_2_eq_2)
qed

section \<open>Asymmetry: results\<close>

lemma list_index_less:
  assumes "x \<in> set xs"
  shows "list_index xs x < length xs"
  using assms unfolding list_index_def
  by (induction xs) auto

lemma list_index_nth:
  assumes "x \<in> set xs"
  shows "xs ! list_index xs x = x"
  using assms unfolding list_index_def
  by (induction xs) auto

lemma asymmetry_pairs_present:
  fixes eeg_channels :: "string list"
  assumes "l \<in> set eeg_channels" "r \<in> set eeg_channels" "length eeg_channels \<le> length p"
  shows "asymmetry_pairs eeg_channels (Some p) ((l, r) # ps) acc =
     asymmetry_pairs eeg_channels (Some p) ps (acc @ [((l, r),
                            ln (max (p ! list_index eeg_channels r) (1 / 10 ^ 20))
                              - ln (max (p ! list_index eeg_channels l) (1 / 10 ^ 20)))])"
proof -
  have "list_index eeg_channels l < length p" "list_index eeg_channels r < length p"
    using assms list_index_less [of l eeg_channels] list_index_less [of r eeg_channels]
    by linarith+
  then have idx: "\<not> (length p \<le> list_index eeg_channels l
                      \<or> length p \<le> list_index eeg_channels r)"
    by simp
  show ?thesis
    by (subst asymmetry_pairs.simps)
       (simp only: assms Let_def idx if_True if_False simp_thms option.case)
qed

lemma asymmetry_pairs_absent:
  fixes eeg_channels :: "string list"
  assumes "\<not> (l \<in> set eeg_channels \<and> r \<in> set eeg_channels)"
  shows "asymmetry_pairs eeg_channels powers ((l, r) # ps) acc =
           asymmetry_pairs eeg_channels powers ps acc"
  by (subst asymmetry_pairs.simps) (simp only: assms if_False)

lemma asymmetry_pairs_result:
  fixes eeg_channels :: "string list"
  assumes "length eeg_channels \<le> length p"
  shows "asymmetry_pairs eeg_channels (Some p) ps acc =
           Inr (acc @ map (\<lambda>(l, r). ((l, r),
                            ln (max (p ! list_index eeg_channels r) (1 / 10 ^ 20))
                              - ln (max (p ! list_index eeg_channels l) (1 / 10 ^ 20))))
                        (filter (\<lambda>(l, r). l \<in> set eeg_channels \<and> r \<in> set eeg_channels) ps))"
proof (induction ps arbitrary: acc)
  case Nil
  then show ?case by simp
next
  case (Cons pr ps)
  obtain l r where pr: "pr = (l, r)" by (cases pr)
  show ?case
  proof (cases "l \<in> set eeg_channels \<and> r \<in> set eeg_channels")
    case True
    then show ?thesis
      unfolding pr
      by (simp only: asymmetry_pairs_present [OF conjunct1 [OF True] conjunct2 [OF True] assms]
            Cons.IH) simp
  next
    case False
    then show ?thesis
      unfolding pr
      by (simp only: asymmetry_pairs_absent [OF False] Cons.IH) simp
  qed
qed

lemma asymmetry_bands_result:
  fixes eeg_channels :: "string list" and band_powers :: "string \<rightharpoonup> real list"
    and asymmetry :: asymmetry_map
  assumes "\<forall>b\<in>set bs. \<exists>p. band_powers b = Some p \<and> length eeg_channels \<le> length p"
  shows "asymmetry_bands eeg_channels band_powers bs asymmetry =
           Inr (\<lambda>b. if b \<in> set bs
                     then Some (map (\<lambda>(l, r). ((l, r),
                            ln (max (the (band_powers b) ! list_index eeg_channels r) (1 / 10 ^ 20))
                              - ln (max (the (band_powers b) ! list_index eeg_channels l) (1 / 10 ^ 20))))
                        (filter (\<lambda>(l, r). l \<in> set eeg_channels \<and> r \<in> set eeg_channels)
                           ASYMMETRY_PAIRS))
                     else asymmetry b)"
  using assms
proof (induction bs arbitrary: asymmetry)
  case Nil
  then show ?case by simp
next
  case (Cons b bs)
  then obtain p where p: "band_powers b = Some p" "length eeg_channels \<le> length p"
    by auto
  have rest: "\<forall>b\<in>set bs. \<exists>p. band_powers b = Some p \<and> length eeg_channels \<le> length p"
    using Cons.prems by simp
  have "asymmetry_bands eeg_channels band_powers (b # bs) asymmetry
          = asymmetry_bands eeg_channels band_powers bs
              (asymmetry(b \<mapsto> map (\<lambda>(l, r). ((l, r),
                            ln (max (p ! list_index eeg_channels r) (1 / 10 ^ 20))
                              - ln (max (p ! list_index eeg_channels l) (1 / 10 ^ 20))))
                        (filter (\<lambda>(l, r). l \<in> set eeg_channels \<and> r \<in> set eeg_channels)
                           ASYMMETRY_PAIRS)))"
    by (simp only: asymmetry_bands.simps p(1) asymmetry_pairs_result [OF p(2)] sum.case append_Nil)
  also have "\<dots> = Inr (\<lambda>b'. if b' \<in> set (b # bs)
                     then Some (map (\<lambda>(l, r). ((l, r),
                            ln (max (the (band_powers b') ! list_index eeg_channels r) (1 / 10 ^ 20))
                              - ln (max (the (band_powers b') ! list_index eeg_channels l) (1 / 10 ^ 20))))
                        (filter (\<lambda>(l, r). l \<in> set eeg_channels \<and> r \<in> set eeg_channels)
                           ASYMMETRY_PAIRS))
                     else asymmetry b')"
    unfolding Cons.IH [OF rest] by (auto simp: fun_eq_iff p(1))
  finally show ?case .
qed

text \<open>
  Claim C7. With a power array per band that is index-aligned with the channel list, the
  asymmetry stage succeeds, and for every band its list holds exactly the configured pairs
  whose left and right channel are both in the channel list, in the configured order (a
  pair with a missing channel has no entry). The value of a pair is
  \<open>ln (max right_power 1e-20) - ln (max left_power 1e-20)\<close> for the powers at the two
  channels' positions: 0 for equal powers, and \<open>ln 2\<close> for the powers 1 and 2.
\<close>

theorem asymmetry_log_ratio:
  fixes eeg_channels :: "string list" and band_powers :: "string \<rightharpoonup> real list"
    and asymmetry :: asymmetry_map
  assumes "\<forall>b\<in>set (map fst FREQ_BANDS).
             \<exists>p. band_powers b = Some p \<and> length p = length eeg_channels"
  shows "\<exists>result.
           QEEGAnalyzer_compute_asymmetry eeg_channels band_powers asymmetry = Inr result
         \<and> (\<forall>b\<in>set (map fst FREQ_BANDS). \<exists>vals.
              result b = Some vals
            \<and> map fst vals
                = filter (\<lambda>(l, r). l \<in> set eeg_channels \<and> r \<in> set eeg_channels) ASYMMETRY_PAIRS
            \<and> (\<forall>((l, r), v)\<in>set vals.
                 let left_power = the (band_powers b) ! list_index eeg_channels l;
                     right_power = the (band_powers b) ! list_index eeg_channels r
                 in eeg_channels ! list_index eeg_channels l = l
                  \<and> eeg_channels ! list_index eeg_channels r = r
                  \<and> v = ln (max right_power (1 / 10 ^ 20)) - ln (max left_power (1 / 10 ^ 20))
                  \<and> (left_power = right_power \<longrightarrow> v = 0)
                  \<and> (left_power = 1 \<and> right_power = 2 \<longrightarrow> v = ln 2)))"
proof -
  define val where "val b l r =
      ln (max (the (band_powers b) ! list_index eeg_channels r) (1 / 10 ^ 20))
        - ln (max (the (band_powers b) ! list_index eeg_channels l) (1 / 10 ^ 20))"
    for b l r
  define present where
    "present = filter (\<lambda>(l, r). l \<in> set eeg_channels \<and> r \<in> set eeg_channels) ASYMMETRY_PAIRS"
  define result where
    "result = (\<lambda>b. if b \<in> set (map fst FREQ_BANDS)
                    then Some (map (\<lambda>(l, r). ((l, r), val b l r)) present)
                    else asymmetry b)"
  have a: "\<forall>b\<in>set (map fst FREQ_BANDS).
             \<exists>p. band_powers b = Some p \<and> length eeg_channels \<le> length p"
    using assms by auto
  have res: "QEEGAnalyzer_compute_asymmetry eeg_channels band_powers asymmetry = Inr result"
    unfolding QEEGAnalyzer_compute_asymmetry_def asymmetry_bands_result [OF a]
      result_def val_def present_def ..
  have fst: "map fst (map (\<lambda>(l, r). ((l, r), val b l r)) present) = present" for b
    by (induction present) auto
  have entries: "\<forall>((l, r), v)\<in>set (map (\<lambda>(l, r). ((l, r), val b l r)) present).
                 let left_power = the (band_powers b) ! list_index eeg_channels l;
                     right_power = the (band_powers b) ! list_index eeg_channels r
                 in eeg_channels ! list_index eeg_channels l = l
                  \<and> eeg_channels ! list_index eeg_channels r = r
                  \<and> v = ln (max right_power (1 / 10 ^ 20)) - ln (max left_power (1 / 10 ^ 20))
                  \<and> (left_power = right_power \<longrightarrow> v = 0)
                  \<and> (left_power = 1 \<and> right_power = 2 \<longrightarrow> v = ln 2)" for b
  proof -
    have "l \<in> set eeg_channels \<and> r \<in> set eeg_channels" if "(l, r) \<in> set present" for l r
      using that by (auto simp: present_def)
    then show ?thesis
      by (auto simp: Let_def val_def list_index_nth)
  qed
  have inner: "\<forall>b\<in>set (map fst FREQ_BANDS). \<exists>vals.
              result b = Some vals
            \<and> map fst vals
                = filter (\<lambda>(l, r). l \<in> set eeg_channels \<and> r \<in> set eeg_channels) ASYMMETRY_PAIRS
            \<and> (\<forall>((l, r), v)\<in>set vals.
                 let left_power = the (band_powers b) ! list_index eeg_channels l;
                     right_power = the (band_powers b) ! list_index eeg_channels r
                 in eeg_channels ! list_index eeg_channels l = l
                  \<and> eeg_channels ! list_index eeg_channels r = r
                  \<and> v = ln (max right_power (1 / 10 ^ 20)) - ln (max left_power (1 / 10 ^ 20))
                  \<and> (left_power = right_power \<longrightarrow> v = 0)
                  \<and> (left_power = 1 \<and> right_power = 2 \<longrightarrow> v = ln 2))"
  proof
    fix b assume b: "b \<in> set (map fst FREQ_BANDS)"
    have 1: "result b = Some (map (\<lambda>(l, r). ((l, r), val b l r)) present)"
      using b by (simp add: result_def)
    have 2: "map fst (map (\<lambda>(l, r). ((l, r), val b l r)) present)
            = filter (\<lambda>(l, r). l \<in> set eeg_channels \<and> r \<in> set eeg_channels) ASYMMETRY_PAIRS"
      unfolding fst by (simp add: present_def)
    show "\<exists>vals.
              result b = Some vals
            \<and> map fst vals
                = filter (\<lambda>(l, r). l \<in> set eeg_channels \<and> r \<in> set eeg_channels) ASYMMETRY_PAIRS
            \<and> (\<forall>((l, r), v)\<in>set vals.
                 let left_power = the (band_powers b) ! list_index eeg_channels l;
                     right_power = the (band_powers b) ! list_index eeg_channels r
                 in eeg_channels ! list_index eeg_channels l = l
                  \<and> eeg_channels ! list_index eeg_channels r = r
                  \<and> v = ln (max right_power (1 / 10 ^ 20)) - ln (max left_power (1 / 10 ^ 20))
                  \<and> (left_power = right_power \<longrightarrow> v = 0)
                  \<and> (left_power = 1 \<and> right_power = 2 \<longrightarrow> v = ln 2))"
      using 1 2 entries [of b] by (intro exI [of _ "map (\<lambda>(l, r). ((l, r), val b l r)) present"] conjI)
  qed
  show ?thesis
    using res inner by (intro exI [of _ result] conjI)
qed

theorem asymmetry_log_ratio_witness:
  "\<exists>result.
     QEEGAnalyzer_compute_asymmetry [''Fp1'', ''Fp2'', ''Cz'', ''O1''] (\<lambda>b. Some [1, 2, 5, 7])
       Map.empty = Inr result
     \<and> result ''Alpha'' = Some [((''Fp1'', ''Fp2''), ln 2)]"
proof -
  define chs where "chs = [''Fp1'', ''Fp2'', ''Cz'', ''O1'']"
  define bp :: "string \<rightharpoonup> real list" where "bp = (\<lambda>b. Some [1, 2, 5, 7])"
  have h: "\<forall>b\<in>set (map fst FREQ_BANDS). \<exists>p. bp b = Some p \<and> length p = length chs"
    by (simp add: bp_def chs_def)
  have alpha: "''Alpha'' \<in> set (map fst FREQ_BANDS)"
    by (simp add: FREQ_BANDS_def)
  have present: "filter (\<lambda>(l, r). l \<in> set chs \<and> r \<in> set chs) ASYMMETRY_PAIRS
                   = [(''Fp1'', ''Fp2'')]"
    by (simp add: chs_def ASYMMETRY_PAIRS_def)
  have il: "list_index chs ''Fp1'' = 0" and ir: "list_index chs ''Fp2'' = 1"
    by (simp_all add: chs_def list_index_def)
  from asymmetry_log_ratio [OF h, of Map.empty]
  obtain result where res: "QEEGAnalyzer_compute_asymmetry chs bp Map.empty = Inr result"
    and every: "\<forall>b\<in>set (map fst FREQ_BANDS). \<exists>vals.
              result b = Some vals
            \<and> map fst vals = [(''Fp1'', ''Fp2'')]
            \<and> (\<forall>((l, r), v)\<in>set vals.
                 let left_power = the (bp b) ! list_index chs l;
                     right_power = the (bp b) ! list_index chs r
                 in chs ! list_index chs l = l
                  \<and> chs ! list_index chs r = r
                  \<and> v = ln (max right_power (1 / 10 ^ 20)) - ln (max left_power (1 / 10 ^ 20))
                  \<and> (left_power = right_power \<longrightarrow> v = 0)
                  \<and> (left_power = 1 \<and> right_power = 2 \<longrightarrow> v = ln 2))"
    unfolding present by (elim exE conjE)
  from bspec [OF every alpha]
  obtain vals where vals: "result ''Alpha'' = Some vals" "map fst vals = [(''Fp1'', ''Fp2'')]"
    and ent: "\<forall>((l, r), v)\<in>set vals.
                 let left_power = the (bp ''Alpha'') ! list_index chs l;
                     right_power = the (bp ''Alpha'') ! list_index chs r
                 in chs ! list_index chs l = l
                  \<and> chs ! list_index chs r = r
                  \<and> v = ln (max right_power (1 / 10 ^ 20)) - ln (max left_power (1 / 10 ^ 20))
                  \<and> (left_power = right_power \<longrightarrow> v = 0)
                  \<and> (left_power = 1 \<and> right_power = 2 \<longrightarrow> v = ln 2)"
    by (elim exE conjE)
  from vals(2) obtain v where v: "vals = [((''Fp1'', ''Fp2''), v)]"
    by (cases vals) auto
  have "v = ln 2"
    using ent unfolding v by (simp add: il ir bp_def Let_def)
  then show ?thesis
    using res vals(1) unfolding v chs_def bp_def by blast
qed

section \<open>Switching the Z-score method: results\<close>

lemma compute_zscores_with_band:
  "compute_zscores method rel (Some b) =
     Inr (if method = ''within'' then compute_zscore_within_subject rel
          else compute_zscore_normative rel b)"
  by (simp add: compute_zscores_def)

lemma zscores_loop_result:
  assumes "\<forall>b\<in>set bs. relative_powers a b \<noteq> None"
  shows "zscores_loop bs a =
           Inr (a\<lparr>zscores := \<lambda>b. if b \<in> set bs
                                  then Some (if normative_method a = ''within''
                                             then compute_zscore_within_subject (the (relative_powers a b))
                                             else compute_zscore_normative (the (relative_powers a b)) b)
                                  else zscores a b\<rparr>)"
  using assms
proof (induction bs arbitrary: a)
  case Nil
  then show ?case by simp
next
  case (Cons b bs)
  then obtain rel where rel: "relative_powers a b = Some rel" by auto
  define z where "z = (if normative_method a = ''within'' then compute_zscore_within_subject rel
                        else compute_zscore_normative rel b)"
  define a1 where "a1 = a\<lparr>zscores := (zscores a)(b \<mapsto> z)\<rparr>"
  have rest: "\<forall>b\<in>set bs. relative_powers a1 b \<noteq> None"
    using Cons.prems by (simp add: a1_def)
  have "zscores_loop (b # bs) a = zscores_loop bs a1"
    by (simp add: rel compute_zscores_with_band a1_def z_def)
  also have "\<dots> = Inr (a1\<lparr>zscores := \<lambda>b. if b \<in> set bs
                                  then Some (if normative_method a1 = ''within''
                                             then compute_zscore_within_subject (the (relative_powers a1 b))
                                             else compute_zscore_normative (the (relative_powers a1 b)) b)
                                  else zscores a1 b\<rparr>)"
    by (rule Cons.IH [OF rest])
  also have "\<dots> = Inr (a\<lparr>zscores := \<lambda>b'. if b' \<in> set (b # bs)
                                  then Some (if normative_method a = ''within''
                                             then compute_zscore_within_subject (the (relative_powers a b'))
                                             else compute_zscore_normative (the (relative_powers a b')) b')
                                  else zscores a b'\<rparr>)"
    by (auto simp: a1_def z_def rel fun_eq_iff)
  finally show ?case .
qed

text \<open>
  Claim C8. On an analyzer whose relative-power map holds every configured band (a
  completed analysis), switching the Z-score method and recomputing succeeds; the new
  analyzer has the requested method, its Z-score of every configured band is the score of
  that band's relative powers under the new method, and nothing else has changed: the
  band-power and relative-power maps, the PSD, the frequency axis, the coherence map, the
  asymmetry lists, the peak-frequency map, the rejection statistics, the channel quality,
  the clean data and the channel list are those of the analyzer before.
\<close>

theorem recompute_zscores_frame:
  assumes "\<forall>b\<in>set (map fst FREQ_BANDS). relative_powers a b \<noteq> None"
  shows "\<exists>a'. recompute_zscores (set_method method a) = Inr a'
            \<and> normative_method a' = method
            \<and> (\<forall>b\<in>set (map fst FREQ_BANDS).
                 Inr (the (zscores a' b))
                   = compute_zscores method (the (relative_powers a b)) (Some b))
            \<and> (\<forall>b. b \<notin> set (map fst FREQ_BANDS) \<longrightarrow> zscores a' b = zscores a b)
            \<and> band_powers a' = band_powers a
            \<and> relative_powers a' = relative_powers a
            \<and> psd a' = psd a
            \<and> freqs a' = freqs a
            \<and> coherence a' = coherence a
            \<and> asymmetry a' = asymmetry a
            \<and> peak_freqs a' = peak_freqs a
            \<and> artifact_stats a' = artifact_stats a
            \<and> channel_quality a' = channel_quality a
            \<and> clean_data a' = clean_data a
            \<and> eeg_channels a' = eeg_channels a"
proof -
  have h: "\<forall>b\<in>set (map fst FREQ_BANDS). relative_powers (set_method method a) b \<noteq> None"
    using assms by (simp add: set_method_def)
  show ?thesis
    unfolding recompute_zscores_def QEEGAnalyzer_compute_zscores_def zscores_loop_result [OF h]
    by (simp add: set_method_def compute_zscores_with_band)
qed

theorem recompute_zscores_frame_witness:
  "\<exists>a'. recompute_zscores (set_method ''normative''
            \<lparr>eeg_channels = [''Fp1'', ''Fp2''], normative_method = ''within'',
             freqs = Some [1, 2], psd = Some [[1, 2], [3, 4]],
             band_powers = (\<lambda>b. Some [1, 2]), relative_powers = (\<lambda>b. Some [1 / 2, 1 / 4]),
             zscores = Map.empty, coherence = Map.empty, asymmetry = Map.empty,
             peak_freqs = Map.empty, artifact_stats = None, channel_quality = Map.empty,
             clean_data = None\<rparr>) = Inr a'
       \<and> normative_method a' = ''normative''
       \<and> band_powers a' ''Alpha'' = Some [1, 2]
       \<and> relative_powers a' ''Alpha'' = Some [1 / 2, 1 / 4]
       \<and> psd a' = Some [[1, 2], [3, 4]]
       \<and> freqs a' = Some [1, 2]"
proof -
  define a :: analyzer where "a =
            \<lparr>eeg_channels = [''Fp1'', ''Fp2''], normative_method = ''within'',
             freqs = Some [1, 2], psd = Some [[1, 2], [3, 4]],
             band_powers = (\<lambda>b. Some [1, 2]), relative_powers = (\<lambda>b. Some [1 / 2, 1 / 4]),
             zscores = Map.empty, coherence = Map.empty, asymmetry = Map.empty,
             peak_freqs = Map.empty, artifact_stats = None, channel_quality = Map.empty,
             clean_data = None\<rparr>"
  have h: "\<forall>b\<in>set (map fst FREQ_BANDS). relative_powers a b \<noteq> None"
    by (simp add: a_def)
  from recompute_zscores_frame [OF h, of "''normative''"]
  obtain a' where "recompute_zscores (set_method ''normative'' a) = Inr a'"
    "normative_method a' = ''normative''" "band_powers a' = band_powers a"
    "relative_powers a' = relative_powers a" "psd a' = psd a" "freqs a' = freqs a"
    by (elim exE conjE)
  then show ?thesis
    unfolding a_def by (intro exI [of _ a']) simp
qed

section \<open>Progress and coherence: results\<close>

lemma int_div_mono_nonneg:
  fixes a b t :: int
  assumes "a \<le> b" and "0 \<le> t"
  shows "a div t \<le> b div t"
  using assms by (cases "t = 0") (simp_all add: zdiv_mono1)

lemma pair_step_n_done: "n_done (pair_step cb coh data t i j st) \<le> n_done st + 1"
  by (simp add: pair_step_def Let_def split: sum.splits prod.splits)

lemma pair_step_sent_inv:
  assumes "sorted (sent st)"
    and "\<forall>p\<in>set (sent st). 0 \<le> p \<and> p \<le> 45 + (40 * int (n_done st)) div int t"
  shows "sorted (sent (pair_step cb coh data t i j st))
       \<and> (\<forall>p\<in>set (sent (pair_step cb coh data t i j st)).
            0 \<le> p \<and> p \<le> 45 + (40 * int (n_done (pair_step cb coh data t i j st))) div int t)"
proof -
  have mono: "(40 * int (n_done st)) div int t \<le> (40 * int (n_done st + 1)) div int t"
    by (rule int_div_mono_nonneg) simp_all
  have nonneg: "0 \<le> (40 * int (n_done st + 1)) div int t"
    by (simp add: pos_imp_zdiv_nonneg_iff div_int_pos_iff)
  have up: "\<forall>p\<in>set (sent st). 0 \<le> p \<and> p \<le> 45 + (40 * int (n_done st + 1)) div int t"
    using assms(2) mono by fastforce
  show ?thesis
    using assms up nonneg
    by (auto simp: pair_step_def Let_def report_progress_def sorted_append
        split: sum.splits prod.splits)
qed

lemma pairs_count: "sum_list (map (\<lambda>i. n - Suc i) [0..<n]) = n * (n - 1) div 2"
proof -
  have "sum_list (map (\<lambda>i. n - Suc i) [0..<n]) = (\<Sum>i<n. n - Suc i)"
    by (simp add: interv_sum_list_conv_sum_set_nat atLeast0LessThan)
  also have "\<dots> = (\<Sum>i<n. i)"
    by (rule sum.nat_diff_reindex)
  also have "\<dots> = n * (n - 1) div 2"
    using Sum_Ico_nat [of 0 n] by (simp add: atLeast0LessThan)
  finally show ?thesis .
qed

lemma inner_loop_n_done:
  "n_done (fold (\<lambda>j st. pair_step cb coh data t i j st) js st) \<le> n_done st + length js"
proof (induction js arbitrary: st)
  case Nil
  then show ?case by simp
next
  case (Cons j js)
  have "n_done (fold (\<lambda>j st. pair_step cb coh data t i j st) js (pair_step cb coh data t i j st))
          \<le> n_done (pair_step cb coh data t i j st) + length js"
    by (rule Cons.IH)
  also have "\<dots> \<le> (n_done st + 1) + length js"
    using pair_step_n_done [of cb coh data t i j st] by simp
  finally show ?case by simp
qed

lemma outer_loop_n_done:
  "n_done (fold (\<lambda>i st. fold (\<lambda>j st. pair_step cb coh data t i j st) (g i) st) is st)
     \<le> n_done st + sum_list (map (\<lambda>i. length (g i)) is)"
proof (induction "is" arbitrary: st)
  case Nil
  then show ?case by simp
next
  case (Cons i "is")
  define st1 where "st1 = fold (\<lambda>j st. pair_step cb coh data t i j st) (g i) st"
  have "n_done (fold (\<lambda>i st. fold (\<lambda>j st. pair_step cb coh data t i j st) (g i) st) is st1)
          \<le> n_done st1 + sum_list (map (\<lambda>i. length (g i)) is)"
    by (rule Cons.IH)
  also have "n_done st1 \<le> n_done st + length (g i)"
    unfolding st1_def by (rule inner_loop_n_done)
  finally show ?case by (simp add: st1_def)
qed

lemma pair_loops_n_done: "n_done (pair_loops cb coh data n sent0) \<le> n * (n - 1) div 2"
proof -
  have "n_done (pair_loops cb coh data n sent0)
          \<le> 0 + sum_list (map (\<lambda>i. length [i + 1..<n]) [0..<n])"
    unfolding pair_loops_def Let_def
    by (rule order_trans [OF outer_loop_n_done]) simp
  also have "\<dots> = n * (n - 1) div 2"
    using pairs_count [of n] by simp
  finally show ?thesis .
qed

lemma inner_loop_sent_inv:
  assumes "sorted (sent st)"
    and "\<forall>p\<in>set (sent st). 0 \<le> p \<and> p \<le> 45 + (40 * int (n_done st)) div int t"
  shows "sorted (sent (fold (\<lambda>j st. pair_step cb coh data t i j st) js st))
       \<and> (\<forall>p\<in>set (sent (fold (\<lambda>j st. pair_step cb coh data t i j st) js st)).
            0 \<le> p \<and> p \<le> 45 + (40 * int (n_done
                  (fold (\<lambda>j st. pair_step cb coh data t i j st) js st))) div int t)"
  using assms
proof (induction js arbitrary: st)
  case Nil
  then show ?case by simp
next
  case (Cons j js)
  note step = pair_step_sent_inv [OF Cons.prems, of cb coh data i j]
  show ?case
    using Cons.IH [OF conjunct1 [OF step] conjunct2 [OF step]] by simp
qed

lemma outer_loop_sent_inv:
  assumes "sorted (sent st)"
    and "\<forall>p\<in>set (sent st). 0 \<le> p \<and> p \<le> 45 + (40 * int (n_done st)) div int t"
  shows "sorted (sent (fold (\<lambda>i st. fold (\<lambda>j st. pair_step cb coh data t i j st) (g i) st) is st))
       \<and> (\<forall>p\<in>set (sent (fold (\<lambda>i st. fold (\<lambda>j st. pair_step cb coh data t i j st) (g i) st) is st)).
            0 \<le> p \<and> p \<le> 45 + (40 * int (n_done
                  (fold (\<lambda>i st. fold (\<lambda>j st. pair_step cb coh data t i j st) (g i) st) is st)))
                  div int t)"
  using assms
proof (induction "is" arbitrary: st)
  case Nil
  then show ?case by simp
next
  case (Cons i "is")
  note step = inner_loop_sent_inv [OF Cons.prems, of cb coh data i "g i"]
  show ?case
    using Cons.IH [OF conjunct1 [OF step] conjunct2 [OF step]] by simp
qed

lemma pair_loops_sent:
  assumes "sorted sent0" and "\<forall>p\<in>set sent0. 0 \<le> p \<and> p \<le> 45"
  shows "sorted (sent (pair_loops cb coh data n sent0))
       \<and> (\<forall>p\<in>set (sent (pair_loops cb coh data n sent0)). 0 \<le> p \<and> p \<le> 85)"
proof -
  define t where "t = n * (n - 1) div 2"
  define st0 :: coh_state where
    "st0 = \<lparr>f_var = None, coh_spectra = Map.empty, n_done = 0, sent = sent0, raised = None\<rparr>"
  define st where "st = pair_loops cb coh data n sent0"
  have st: "st = fold (\<lambda>i st. fold (\<lambda>j st. pair_step cb coh data t i j st) [i + 1..<n] st)
                   [0..<n] st0"
    by (simp add: st_def pair_loops_def Let_def t_def st0_def)
  have a: "sorted (sent st0)" using assms(1) by (simp add: st0_def)
  have b: "\<forall>p\<in>set (sent st0). 0 \<le> p \<and> p \<le> 45 + (40 * int (n_done st0)) div int t"
    using assms(2) by (simp add: st0_def)
  have inv: "sorted (sent st)
       \<and> (\<forall>p\<in>set (sent st). 0 \<le> p \<and> p \<le> 45 + (40 * int (n_done st)) div int t)"
    unfolding st by (rule outer_loop_sent_inv [OF a b])
  have d: "n_done st \<le> t"
    unfolding st_def t_def by (rule pair_loops_n_done)
  have "(40 * int (n_done st)) div int t \<le> 40"
  proof (cases "t = 0")
    case True
    then show ?thesis by simp
  next
    case False
    have "(40 * int (n_done st)) div int t \<le> (40 * int t) div int t"
      using d by (intro int_div_mono_nonneg) simp_all
    also have "\<dots> = 40" using False by simp
    finally show ?thesis .
  qed
  then show ?thesis
    using inv unfolding st_def by fastforce
qed

lemma compute_coherence_sent:
  "fst (QEEGAnalyzer_compute_coherence cb coh data n sent0) = sent (pair_loops cb coh data n sent0)"
  by (simp add: QEEGAnalyzer_compute_coherence_def Let_def split: option.splits)

lemma run_stage_sent:
  assumes "sorted sent0" and "\<forall>p\<in>set sent0. 0 \<le> p \<and> p \<le> percent" and "0 \<le> percent"
    and "stg = ComputeCoherence \<longrightarrow> percent = 45"
  shows "sorted (fst (run_stage cb raises coh data n stg (report_progress cb percent sent0)))
       \<and> (\<forall>p\<in>set (fst (run_stage cb raises coh data n stg (report_progress cb percent sent0))).
            0 \<le> p \<and> p \<le> (if stg = ComputeCoherence then percent + 40 else percent))"
proof -
  have s: "sorted (report_progress cb percent sent0)"
    using assms(1,2) by (auto simp: report_progress_def sorted_append)
  have b: "\<forall>p\<in>set (report_progress cb percent sent0). 0 \<le> p \<and> p \<le> percent"
    using assms(2,3) by (auto simp: report_progress_def)
  show ?thesis
  proof (cases "stg = ComputeCoherence")
    case False
    then show ?thesis using s b by (simp add: run_stage_def)
  next
    case True
    then have p45: "percent = 45" using assms(4) by simp
    have "fst (run_stage cb raises coh data n stg (report_progress cb percent sent0))
            = sent (pair_loops cb coh data n (report_progress cb percent sent0))"
      using True compute_coherence_sent [of cb coh data n "report_progress cb percent sent0"]
      by (cases "QEEGAnalyzer_compute_coherence cb coh data n (report_progress cb percent sent0)")
         (auto simp: run_stage_def split: sum.splits)
    then show ?thesis
      using pair_loops_sent [OF s, of cb coh data n] b True by (simp add: p45)
  qed
qed

lemma run_steps_sent:
  assumes "sorted sent0"
    and "\<forall>p\<in>set sent0. 0 \<le> p \<and> p < 100"
    and "\<forall>p\<in>set sent0. \<forall>q\<in>set (concat (map (\<lambda>(percent, stg).
            [percent, if stg = ComputeCoherence then percent + 40 else percent]) steps)). p \<le> q"
    and "sorted (concat (map (\<lambda>(percent, stg).
            [percent, if stg = ComputeCoherence then percent + 40 else percent]) steps))"
    and "\<forall>q\<in>set (concat (map (\<lambda>(percent, stg).
            [percent, if stg = ComputeCoherence then percent + 40 else percent]) steps)).
            0 \<le> q \<and> q < 100"
    and "\<forall>(percent, stg)\<in>set steps. stg = ComputeCoherence \<longrightarrow> percent = 45"
  shows "sorted (fst (run_steps cb raises coh data n steps sent0))
       \<and> (\<forall>p\<in>set (fst (run_steps cb raises coh data n steps sent0)). 0 \<le> p \<and> p \<le> 100)
       \<and> (100 \<in> set (fst (run_steps cb raises coh data n steps sent0)) \<longrightarrow>
            snd (run_steps cb raises coh data n steps sent0) = None
          \<and> last (fst (run_steps cb raises coh data n steps sent0)) = 100
          \<and> 100 \<notin> set (butlast (fst (run_steps cb raises coh data n steps sent0))))"
  using assms
proof (induction steps arbitrary: sent0)
  case Nil
  then show ?case
    by (auto simp: report_progress_def sorted_append)
next
  case (Cons step steps)
  obtain percent stg where step: "step = (percent, stg)" by (cases step)
  define hi where "hi = (if stg = ComputeCoherence then percent + 40 else percent)"
  define r where "r = run_stage cb raises coh data n stg (report_progress cb percent sent0)"
  have le_pct: "\<forall>p\<in>set sent0. 0 \<le> p \<and> p \<le> percent"
    using Cons.prems(2,3) by (simp add: step)
  have pct0: "0 \<le> percent" using Cons.prems(5) by (simp add: step)
  have coh45: "stg = ComputeCoherence \<longrightarrow> percent = 45"
    using Cons.prems(6) by (simp add: step)
  have hi100: "hi < 100" using Cons.prems(5) by (simp add: step hi_def)
  have hi_le: "\<forall>q\<in>set (concat (map (\<lambda>(percent, stg).
            [percent, if stg = ComputeCoherence then percent + 40 else percent]) steps)). hi \<le> q"
    using Cons.prems(4) by (simp add: step hi_def)
  note stage = run_stage_sent [OF Cons.prems(1) le_pct pct0 coh45, of cb raises coh data n]
  have s1: "sorted (fst r)" using stage by (simp add: r_def)
  have b1: "\<forall>p\<in>set (fst r). 0 \<le> p \<and> p \<le> hi" using stage by (simp add: r_def hi_def)
  show ?case
  proof (cases "snd r")
    case (Some e)
    then have "run_steps cb raises coh data n (step # steps) sent0 = (fst r, Some e)"
      by (cases r) (simp add: step r_def)
    then show ?thesis
      using s1 b1 hi100 by fastforce
  next
    case None
    then have eq: "run_steps cb raises coh data n (step # steps) sent0
                     = run_steps cb raises coh data n steps (fst r)"
      by (cases r) (simp add: step r_def)
    have a2: "\<forall>p\<in>set (fst r). 0 \<le> p \<and> p < 100" using b1 hi100 by fastforce
    have a3: "\<forall>p\<in>set (fst r). \<forall>q\<in>set (concat (map (\<lambda>(percent, stg).
            [percent, if stg = ComputeCoherence then percent + 40 else percent]) steps)). p \<le> q"
      using b1 hi_le by fastforce
    have a4: "sorted (concat (map (\<lambda>(percent, stg).
            [percent, if stg = ComputeCoherence then percent + 40 else percent]) steps))"
      using Cons.prems(4) by (simp add: step)
    have a5: "\<forall>q\<in>set (concat (map (\<lambda>(percent, stg).
            [percent, if stg = ComputeCoherence then percent + 40 else percent]) steps)).
            0 \<le> q \<and> q < 100"
      using Cons.prems(5) by simp
    have a6: "\<forall>(percent, stg)\<in>set steps. stg = ComputeCoherence \<longrightarrow> percent = 45"
      using Cons.prems(6) by simp
    show ?thesis
      unfolding eq by (rule Cons.IH [OF s1 a2 a3 a4 a5 a6])
  qed
qed

lemma pair_step_no_callback: "sent (pair_step False coh data t i j st) = sent st"
  by (simp add: pair_step_def Let_def report_progress_def split: sum.splits prod.splits)

lemma inner_loop_no_callback:
  "sent (fold (\<lambda>j st. pair_step False coh data t i j st) js st) = sent st"
  by (induction js arbitrary: st) (simp_all add: pair_step_no_callback)

lemma outer_loop_no_callback:
  "sent (fold (\<lambda>i st. fold (\<lambda>j st. pair_step False coh data t i j st) (g i) st) is st)
     = sent st"
  by (induction "is" arbitrary: st) (simp_all add: inner_loop_no_callback)

lemma compute_coherence_no_callback:
  "fst (QEEGAnalyzer_compute_coherence False coh data n sent0) = sent0"
  unfolding compute_coherence_sent pair_loops_def Let_def
  by (simp add: outer_loop_no_callback)

lemma run_steps_no_callback:
  "fst (run_steps False raises coh data n steps sent0) = sent0"
proof (induction steps arbitrary: sent0)
  case Nil
  then show ?case by (simp add: report_progress_def)
next
  case (Cons step steps)
  obtain percent stg where step: "step = (percent, stg)" by (cases step)
  define r where "r = run_stage False raises coh data n stg (report_progress False percent sent0)"
  have r: "fst r = sent0"
    using compute_coherence_no_callback [of coh data n sent0]
    by (cases "QEEGAnalyzer_compute_coherence False coh data n sent0")
       (auto simp: r_def run_stage_def report_progress_def split: sum.splits)
  show ?case
  proof (cases "snd r")
    case None
    then have "run_steps False raises coh data n (step # steps) sent0
                 = run_steps False raises coh data n steps (fst r)"
      by (cases r) (simp add: step r_def)
    then show ?thesis by (simp add: Cons.IH r)
  next
    case (Some e)
    then have "run_steps False raises coh data n (step # steps) sent0 = (fst r, Some e)"
      by (cases r) (simp add: step r_def)
    then show ?thesis by (simp add: r)
  qed
qed

lemma run_steps_completed_callback:
  assumes "snd (run_steps True raises coh data n steps sent0) = None"
  shows "fst (run_steps True raises coh data n steps sent0) \<noteq> []
       \<and> last (fst (run_steps True raises coh data n steps sent0)) = 100"
  using assms
proof (induction steps arbitrary: sent0)
  case Nil
  then show ?case by (simp add: report_progress_def)
next
  case (Cons step steps)
  obtain percent stg where step: "step = (percent, stg)" by (cases step)
  define r where "r = run_stage True raises coh data n stg (report_progress True percent sent0)"
  show ?case
  proof (cases "snd r")
    case None
    then have eq: "run_steps True raises coh data n (step # steps) sent0
                 = run_steps True raises coh data n steps (fst r)"
      by (cases r) (simp add: step r_def)
    show ?thesis
      using Cons.prems unfolding eq by (rule Cons.IH)
  next
    case (Some e)
    then have "run_steps True raises coh data n (step # steps) sent0 = (fst r, Some e)"
      by (cases r) (simp add: step r_def)
    then show ?thesis using Cons.prems by simp
  qed
qed

text \<open>A run that ends without an exception: no stage outside the coherence stage has
  raised, and the coherence stage, entered with the percentages sent before it, has
  returned its matrices.\<close>

lemma run_full_analysis_completed:
  assumes "snd (run_full_analysis cb raises coh data n) = None"
  shows "(\<forall>stg. stg \<noteq> ComputeCoherence \<longrightarrow> raises stg = None)
       \<and> (\<exists>res. snd (QEEGAnalyzer_compute_coherence cb coh data n
                        (if cb then [2, 4, 6, 10, 20, 35, 45] else [])) = Inr res)"
proof -
  have stages: "raises DetectChannelQuality = None \<and> raises ApplyChannelFiltering = None
      \<and> raises RejectArtifacts = None \<and> raises ComputePSD = None
      \<and> raises ComputeBandPowers = None \<and> raises ComputeZScores = None
      \<and> (\<exists>res. snd (QEEGAnalyzer_compute_coherence cb coh data n
                        (if cb then [2, 4, 6, 10, 20, 35, 45] else [])) = Inr res)
      \<and> raises ComputeAsymmetry = None \<and> raises ComputePeakFrequencies = None"
    using assms
    by (cases cb)
       (auto simp: run_full_analysis_def ANALYSIS_STEPS_def run_stage_def report_progress_def
          split: option.splits prod.splits sum.splits)
  show ?thesis
  proof (intro conjI allI impI)
    fix stg :: stage
    assume "stg \<noteq> ComputeCoherence"
    then show "raises stg = None"
      using stages by (cases stg) simp_all
  next
    show "\<exists>res. snd (QEEGAnalyzer_compute_coherence cb coh data n
                        (if cb then [2, 4, 6, 10, 20, 35, 45] else [])) = Inr res"
      using stages by blast
  qed
qed

text \<open>
  Claim C9. In every run of the full analysis (with any number of channels, any outcome of
  the library's coherence routine, and any stage raising), the percentages sent to the
  observer, the coherence stage's incremental ones included, are in non-decreasing order
  and lie between 0 and 100. When 100 has been sent, every stage has completed: the run has
  ended without an exception, no stage outside the coherence stage has raised, the
  coherence stage (entered after 2, 4, 6, 10, 20, 35 and 45 percent) has returned its
  matrices, and 100 is the last percentage sent and was sent once. Conversely a run with
  an observer that ends without an exception has sent 100.
\<close>

theorem progress_monotone:
  "sorted (fst (run_full_analysis cb raises coh data n))
   \<and> (\<forall>p\<in>set (fst (run_full_analysis cb raises coh data n)). 0 \<le> p \<and> p \<le> 100)
   \<and> (100 \<in> set (fst (run_full_analysis cb raises coh data n)) \<longrightarrow>
        snd (run_full_analysis cb raises coh data n) = None
      \<and> (\<forall>stg. stg \<noteq> ComputeCoherence \<longrightarrow> raises stg = None)
      \<and> (\<exists>res. snd (QEEGAnalyzer_compute_coherence cb coh data n [2, 4, 6, 10, 20, 35, 45])
                  = Inr res)
      \<and> last (fst (run_full_analysis cb raises coh data n)) = 100
      \<and> 100 \<notin> set (butlast (fst (run_full_analysis cb raises coh data n))))
   \<and> (cb \<and> snd (run_full_analysis cb raises coh data n) = None \<longrightarrow>
        100 \<in> set (fst (run_full_analysis cb raises coh data n)))"
proof -
  have base: "sorted (fst (run_full_analysis cb raises coh data n))
   \<and> (\<forall>p\<in>set (fst (run_full_analysis cb raises coh data n)). 0 \<le> p \<and> p \<le> 100)
   \<and> (100 \<in> set (fst (run_full_analysis cb raises coh data n)) \<longrightarrow>
        snd (run_full_analysis cb raises coh data n) = None
      \<and> last (fst (run_full_analysis cb raises coh data n)) = 100
      \<and> 100 \<notin> set (butlast (fst (run_full_analysis cb raises coh data n))))"
    unfolding run_full_analysis_def
    by (rule run_steps_sent) (simp_all add: ANALYSIS_STEPS_def)
  have done_all: "(\<forall>stg. stg \<noteq> ComputeCoherence \<longrightarrow> raises stg = None)
      \<and> (\<exists>res. snd (QEEGAnalyzer_compute_coherence cb coh data n [2, 4, 6, 10, 20, 35, 45])
                  = Inr res)"
    if sent: "100 \<in> set (fst (run_full_analysis cb raises coh data n))"
  proof -
    have cb: cb
    proof (rule ccontr)
      assume "\<not> cb"
      then have "fst (run_full_analysis cb raises coh data n) = []"
        by (simp add: run_full_analysis_def run_steps_no_callback)
      then show False using sent by simp
    qed
    have "snd (run_full_analysis cb raises coh data n) = None"
      using base sent by blast
    from run_full_analysis_completed [OF this] show ?thesis
      using cb by simp
  qed
  have conv: "100 \<in> set (fst (run_full_analysis cb raises coh data n))"
    if "cb \<and> snd (run_full_analysis cb raises coh data n) = None"
  proof -
    from that have cb: "cb = True" by simp
    from that have "snd (run_steps True raises coh data n ANALYSIS_STEPS []) = None"
      by (simp add: cb run_full_analysis_def)
    from run_steps_completed_callback [OF this]
    have "fst (run_full_analysis cb raises coh data n) \<noteq> []
        \<and> last (fst (run_full_analysis cb raises coh data n)) = 100"
      by (simp add: cb run_full_analysis_def)
    then show ?thesis by (metis last_in_set)
  qed
  show ?thesis
    using base done_all conv by blast
qed

theorem progress_monotone_witness:
  "fst (run_full_analysis True (\<lambda>stg. None) (\<lambda>x y. Inr ([], [])) (replicate 7 []) 7)
     = [2, 4, 6, 10, 20, 35, 45, 83, 85, 92, 100]
   \<and> snd (run_full_analysis True (\<lambda>stg. None) (\<lambda>x y. Inr ([], [])) (replicate 7 []) 7) = None
   \<and> sorted (fst (run_full_analysis True (\<lambda>stg. None) (\<lambda>x y. Inr ([], [])) (replicate 7 []) 7))
   \<and> list_all (\<lambda>p. 0 \<le> p \<and> p \<le> 100)
       (fst (run_full_analysis True (\<lambda>stg. None) (\<lambda>x y. Inr ([], [])) (replicate 7 []) 7))
   \<and> 100 \<in> set (fst (run_full_analysis True (\<lambda>stg. None) (\<lambda>x y. Inr ([], [])) (replicate 7 []) 7))"
proof -
  define r where
    "r = run_full_analysis True (\<lambda>stg. None) (\<lambda>x y. Inr ([], [])) (replicate 7 []) 7"
  have loops: "sent (pair_loops True (\<lambda>x y. Inr ([], [])) (replicate 7 []) 7
                  [2, 4, 6, 10, 20, 35, 45]) = [2, 4, 6, 10, 20, 35, 45, 83]
             \<and> raised (pair_loops True (\<lambda>x y. Inr ([], [])) (replicate 7 []) 7
                  [2, 4, 6, 10, 20, 35, 45]) = None
             \<and> f_var (pair_loops True (\<lambda>x y. Inr ([], [])) (replicate 7 []) 7
                  [2, 4, 6, 10, 20, 35, 45]) = Some []"
    by code_simp
  have trace: "fst r = [2, 4, 6, 10, 20, 35, 45, 83, 85, 92, 100]" and err: "snd r = None"
    by (simp_all add: r_def run_full_analysis_def ANALYSIS_STEPS_def run_stage_def
        report_progress_def QEEGAnalyzer_compute_coherence_def loops Let_def)
  have "sorted (fst r) \<and> (\<forall>p\<in>set (fst r). 0 \<le> p \<and> p \<le> 100)"
    using progress_monotone [of True "\<lambda>stg. None" "\<lambda>x y. Inr ([], [])" "replicate 7 []" 7]
    unfolding r_def by blast
  then have "sorted (fst r)" "list_all (\<lambda>p. 0 \<le> p \<and> p \<le> 100) (fst r)"
    by (simp_all add: list_all_iff)
  moreover have "100 \<in> set (fst r)" by (simp add: trace)
  ultimately show ?thesis
    using trace err unfolding r_def by blast
qed

text \<open>The matrix that the second pair of loops builds for a band: for every channel
  count it is square, with unit diagonal, and equal to its transpose.\<close>

lemma set_entry_pair_inv:
  assumes "length m = n" and "\<forall>a<n. length (m ! a) = n"
    and "\<forall>a<n. m ! a ! a = Fin 1" and "\<forall>a<n. \<forall>b<n. m ! a ! b = m ! b ! a"
    and "i < j" and "j < n"
  shows "length (set_entry (set_entry m i j v) j i v) = n
       \<and> (\<forall>a<n. length (set_entry (set_entry m i j v) j i v ! a) = n)
       \<and> (\<forall>a<n. set_entry (set_entry m i j v) j i v ! a ! a = Fin 1)
       \<and> (\<forall>a<n. \<forall>b<n. set_entry (set_entry m i j v) j i v ! a ! b
                            = set_entry (set_entry m i j v) j i v ! b ! a)"
  using assms by (auto simp: set_entry_def nth_list_update)

lemma eye_inv:
  "length (eye n) = n
   \<and> (\<forall>a<n. length (eye n ! a) = n)
   \<and> (\<forall>a<n. eye n ! a ! a = Fin 1)
   \<and> (\<forall>a<n. \<forall>b<n. eye n ! a ! b = eye n ! b ! a)"
  by (auto simp: eye_def)

lemma inner_matrix_inv:
  assumes "length m = n \<and> (\<forall>a<n. length (m ! a) = n)
         \<and> (\<forall>a<n. m ! a ! a = Fin 1) \<and> (\<forall>a<n. \<forall>b<n. m ! a ! b = m ! b ! a)"
    and "\<forall>j\<in>set js. i < j \<and> j < n"
  shows "length (fold (\<lambda>j m. set_entry (set_entry m i j (w i j)) j i (w i j)) js m) = n
       \<and> (\<forall>a<n. length (fold (\<lambda>j m. set_entry (set_entry m i j (w i j)) j i (w i j)) js m ! a) = n)
       \<and> (\<forall>a<n. fold (\<lambda>j m. set_entry (set_entry m i j (w i j)) j i (w i j)) js m ! a ! a = Fin 1)
       \<and> (\<forall>a<n. \<forall>b<n. fold (\<lambda>j m. set_entry (set_entry m i j (w i j)) j i (w i j)) js m ! a ! b
                = fold (\<lambda>j m. set_entry (set_entry m i j (w i j)) j i (w i j)) js m ! b ! a)"
  using assms
proof (induction js arbitrary: m)
  case Nil
  then show ?case by simp
next
  case (Cons j js)
  have ij: "i < j" "j < n" using Cons.prems(2) by simp_all
  have step: "length (set_entry (set_entry m i j (w i j)) j i (w i j)) = n
       \<and> (\<forall>a<n. length (set_entry (set_entry m i j (w i j)) j i (w i j) ! a) = n)
       \<and> (\<forall>a<n. set_entry (set_entry m i j (w i j)) j i (w i j) ! a ! a = Fin 1)
       \<and> (\<forall>a<n. \<forall>b<n. set_entry (set_entry m i j (w i j)) j i (w i j) ! a ! b
                            = set_entry (set_entry m i j (w i j)) j i (w i j) ! b ! a)"
    using Cons.prems(1) ij by (intro set_entry_pair_inv) simp_all
  have rest: "\<forall>j\<in>set js. i < j \<and> j < n" using Cons.prems(2) by simp
  show ?case
    using Cons.IH [OF step rest] by simp
qed

lemma outer_matrix_inv:
  assumes "length m = n \<and> (\<forall>a<n. length (m ! a) = n)
         \<and> (\<forall>a<n. m ! a ! a = Fin 1) \<and> (\<forall>a<n. \<forall>b<n. m ! a ! b = m ! b ! a)"
  shows "length (fold (\<lambda>i m. fold (\<lambda>j m. set_entry (set_entry m i j (w i j)) j i (w i j))
                                 [i + 1..<n] m) is m) = n
       \<and> (\<forall>a<n. length (fold (\<lambda>i m. fold (\<lambda>j m. set_entry (set_entry m i j (w i j)) j i (w i j))
                                 [i + 1..<n] m) is m ! a) = n)
       \<and> (\<forall>a<n. fold (\<lambda>i m. fold (\<lambda>j m. set_entry (set_entry m i j (w i j)) j i (w i j))
                                 [i + 1..<n] m) is m ! a ! a = Fin 1)
       \<and> (\<forall>a<n. \<forall>b<n. fold (\<lambda>i m. fold (\<lambda>j m. set_entry (set_entry m i j (w i j)) j i (w i j))
                                 [i + 1..<n] m) is m ! a ! b
                = fold (\<lambda>i m. fold (\<lambda>j m. set_entry (set_entry m i j (w i j)) j i (w i j))
                                 [i + 1..<n] m) is m ! b ! a)"
  using assms
proof (induction "is" arbitrary: m)
  case Nil
  then show ?case by simp
next
  case (Cons i "is")
  have js: "\<forall>j\<in>set [i + 1..<n]. i < j \<and> j < n" by simp
  note step = inner_matrix_inv [OF Cons.prems js, of w]
  show ?case
    using Cons.IH [OF step] by simp
qed

lemma band_matrix_shape:
  "length (band_matrix n spectra f f_low f_high) = n
   \<and> (\<forall>a<n. length (band_matrix n spectra f f_low f_high ! a) = n)
   \<and> (\<forall>a<n. band_matrix n spectra f f_low f_high ! a ! a = Fin 1)
   \<and> (\<forall>a<n. \<forall>b<n. band_matrix n spectra f f_low f_high ! a ! b
                       = band_matrix n spectra f f_low f_high ! b ! a)"
  unfolding band_matrix_def Let_def
  by (rule outer_matrix_inv [OF eye_inv,
        where w = "\<lambda>i j. np_mean (select_mask (the (spectra (i, j))) (freq_mask f f_low f_high))"])

text \<open>
  Claim C5 at one channel. With \<open>n = 1\<close> the pair loops never run, the local \<open>f\<close> is
  unbound when the first band mask reads it, and the coherence stage raises instead of
  returning the 1-by-1 matrix; a full run on one channel ends there, after 45 percent.
\<close>

theorem coherence_single_channel_raises:
  "QEEGAnalyzer_compute_coherence cb coh data 1 sent0 = (sent0, Inl UnboundLocalError)
   \<and> run_full_analysis True (\<lambda>stg. None) coh data 1
       = ([2, 4, 6, 10, 20, 35, 45], Some UnboundLocalError)"
proof -
  have one: "QEEGAnalyzer_compute_coherence cb coh data 1 sent0 = (sent0, Inl UnboundLocalError)"
    for cb sent0
    by (simp add: QEEGAnalyzer_compute_coherence_def pair_loops_def FREQ_BANDS_def)
  show ?thesis
    by (simp add: one one [unfolded One_nat_def] run_full_analysis_def ANALYSIS_STEPS_def
        run_stage_def report_progress_def)
qed

end
